theory Spec2Isabelle
  imports Complex_Main
begin

section \<open>Arrays, errors and arithmetic shared by the components\<close>

text \<open>
  Samples, angles and gains are modelled as real numbers: the rounding of the
  float32 and float64 arithmetic of numpy is not part of the model, every other
  step of the code is. A numpy array of shape \<open>(num_samples, channels)\<close> is a
  record of its sample count and its columns, since the code reads and writes
  whole columns (\<open>frame[:, ch]\<close>).
\<close>

datatype error = IndexError | KeyError | ValueError | ZeroDivisionError

definition bind_err :: "error + 'a \<Rightarrow> ('a \<Rightarrow> error + 'b) \<Rightarrow> error + 'b" where
  "bind_err m k = (case m of Inl e \<Rightarrow> Inl e | Inr x \<Rightarrow> k x)"

fun map_err :: "('a \<Rightarrow> error + 'b) \<Rightarrow> 'a list \<Rightarrow> error + 'b list" where
  "map_err g [] = Inr []"
| "map_err g (x # xs) =
     bind_err (g x) (\<lambda>y. bind_err (map_err g xs) (\<lambda>ys. Inr (y # ys)))"

record frame =
  nsamples :: nat
  columns :: "real list list"

definition wf_frame :: "frame \<Rightarrow> bool" where
  "wf_frame f \<longleftrightarrow> list_all (\<lambda>c. length c = nsamples f) (columns f)"

text \<open>\<open>np.zeros((n, c))\<close>\<close>

definition zeros :: "nat \<Rightarrow> nat \<Rightarrow> frame" where
  "zeros n c = \<lparr>nsamples = n, columns = replicate c (replicate n 0)\<rparr>"

text \<open>\<open>frame[:, i]\<close> for a non-negative index: IndexError past the last column.\<close>

definition column :: "frame \<Rightarrow> nat \<Rightarrow> error + real list" where
  "column f i = (if i < length (columns f) then Inr (columns f ! i) else Inl IndexError)"

text \<open>
  \<open>frame[:, i] = v\<close>: the vector must have the frame's sample count, or one
  element (numpy broadcasts it over the column); anything else is a ValueError.
\<close>

definition set_column :: "frame \<Rightarrow> nat \<Rightarrow> real list \<Rightarrow> error + frame" where
  "set_column f i v =
     (if length (columns f) \<le> i then Inl IndexError
      else if length v = nsamples f then Inr (f\<lparr>columns := (columns f)[i := v]\<rparr>)
      else if length v = 1 then
        Inr (f\<lparr>columns := (columns f)[i := replicate (nsamples f) (hd v)]\<rparr>)
      else Inl ValueError)"

text \<open>
  What a broadcasting assignment stores in a column of \<open>n\<close> samples: the vector
  itself, or its single element repeated.
\<close>

definition stored_column :: "nat \<Rightarrow> real list \<Rightarrow> real list" where
  "stored_column n v = (if length v = n then v else replicate n (hd v))"

text \<open>
  \<open>target[:] = src\<close> (and \<open>target[:, :c] = src\<close>) for a target block of shape
  \<open>(n, c)\<close>, by numpy's broadcasting rule: each dimension of the source equals the
  target's or is 1; anything else is a ValueError. The result is the new block.
\<close>

definition assign_block :: "nat \<Rightarrow> nat \<Rightarrow> frame \<Rightarrow> error + frame" where
  "assign_block n c src =
     (if \<not> (nsamples src = n \<or> nsamples src = 1) then Inl ValueError
      else if length (columns src) = c then
        Inr \<lparr>nsamples = n, columns = map (stored_column n) (columns src)\<rparr>
      else if length (columns src) = 1 then
        Inr \<lparr>nsamples = n, columns = replicate c (stored_column n (hd (columns src)))\<rparr>
      else Inl ValueError)"

text \<open>Python's \<open>x % m\<close> on floats, for a positive modulus: the result lies in \<open>[0, m)\<close>.\<close>

definition py_mod :: "real \<Rightarrow> real \<Rightarrow> real" where
  "py_mod x m = x - m * of_int \<lfloor>x / m\<rfloor>"

text \<open>\<open>d[k]\<close> on a dict.\<close>

definition getitem :: "('k \<rightharpoonup> 'v) \<Rightarrow> 'k \<Rightarrow> error + 'v" where
  "getitem d k = (case d k of None \<Rightarrow> Inl KeyError | Some v \<Rightarrow> Inr v)"

section \<open>rotation.py: SurroundRotator\<close>

definition SPEAKER_ANGLES_71 :: "nat \<rightharpoonup> int" where
  "SPEAKER_ANGLES_71 =
     [0 \<mapsto> 30, 1 \<mapsto> -30, 2 \<mapsto> 0, 3 \<mapsto> 0, 4 \<mapsto> 110, 5 \<mapsto> -110, 6 \<mapsto> 150, 7 \<mapsto> -150]"

definition SPEAKER_ANGLES_51 :: "nat \<rightharpoonup> int" where
  "SPEAKER_ANGLES_51 =
     [0 \<mapsto> 30, 1 \<mapsto> -30, 2 \<mapsto> 0, 3 \<mapsto> 0, 4 \<mapsto> 110, 5 \<mapsto> -110]"

record surround_rotator =
  format :: string
  num_channels :: nat
  SPEAKER_ANGLES :: "nat \<rightharpoonup> int"

text \<open>\<open>SurroundRotator.__init__\<close>\<close>

definition SurroundRotator :: "string \<Rightarrow> surround_rotator" where
  "SurroundRotator fmt =
     \<lparr>format = fmt,
      num_channels = (if fmt = ''5.1'' then 6 else 8),
      SPEAKER_ANGLES = (if fmt = ''5.1'' then SPEAKER_ANGLES_51 else SPEAKER_ANGLES_71)\<rparr>"

text \<open>\<open>SurroundRotator._angle_distance\<close>\<close>

definition angle_distance :: "real \<Rightarrow> real \<Rightarrow> real" where
  "angle_distance angle1 angle2 =
     (let diff = py_mod \<bar>angle1 - angle2\<bar> 360
      in if diff > 180 then 360 - diff else diff)"

text \<open>
  The panning weights of \<open>_amplitude_pan\<close> (lines 118 to 131): the pair
  \<open>(weight1, weight2)\<close> from the two distances.
\<close>

definition pan_weights :: "real \<Rightarrow> real \<Rightarrow> real \<times> real" where
  "pan_weights dist1 dist2 =
     (let total_dist = dist1 + dist2
      in if total_dist < 0.1 then (1, 0)
         else (let weight2 = dist1 / total_dist;
                   angle_rad = weight2 * pi / 2
               in (cos angle_rad, sin angle_rad)))"

text \<open>
  The first lines of \<open>_amplitude_pan\<close>: \<open>sorted(spatial_channels, key=...)[:2]\<close>.
  Python computes the key of every element, then sorts stably by the keys;
  \<open>sort_key\<close> is a stable insertion sort.
\<close>

definition spatial_channels :: "surround_rotator \<Rightarrow> nat list" where
  "spatial_channels self = filter (\<lambda>i. i \<noteq> 3) [0..<num_channels self]"

definition closest_channels :: "surround_rotator \<Rightarrow> real \<Rightarrow> error + nat list" where
  "closest_channels self target_angle =
     bind_err
       (map_err (\<lambda>ch. bind_err (getitem (SPEAKER_ANGLES self) ch)
                        (\<lambda>a. Inr (angle_distance (real_of_int a) target_angle)))
          (spatial_channels self))
       (\<lambda>keys. Inr (take 2 (map snd (sort_key fst (zip keys (spatial_channels self))))))"

text \<open>\<open>SurroundRotator._amplitude_pan\<close>\<close>

definition amplitude_pan :: "surround_rotator \<Rightarrow> frame \<Rightarrow> real \<Rightarrow> error + real list" where
  "amplitude_pan self surround_frame target_angle =
     bind_err (closest_channels self target_angle) (\<lambda>closest.
       case closest of
         [] \<Rightarrow> Inr (replicate (nsamples surround_frame) 0)
       | [c] \<Rightarrow> column surround_frame c
       | ch1 # ch2 # _ \<Rightarrow>
           bind_err (getitem (SPEAKER_ANGLES self) ch1) (\<lambda>angle1.
           bind_err (getitem (SPEAKER_ANGLES self) ch2) (\<lambda>angle2.
             let dist1 = angle_distance (real_of_int angle1) target_angle;
                 dist2 = angle_distance (real_of_int angle2) target_angle;
                 (weight1, weight2) = pan_weights dist1 dist2
             in bind_err (column surround_frame ch1) (\<lambda>s1.
                bind_err (column surround_frame ch2) (\<lambda>s2.
                  Inr (map2 (\<lambda>a b. a * weight1 + b * weight2) s1 s2))))))"

text \<open>The body of the loop of \<open>SurroundRotator.rotate\<close> up to the signal it stores.\<close>

definition rotate_channel ::
  "surround_rotator \<Rightarrow> frame \<Rightarrow> real \<Rightarrow> nat \<Rightarrow> error + real list" where
  "rotate_channel self surround_frame yaw_degrees out_channel =
     bind_err (getitem (SPEAKER_ANGLES self) out_channel) (\<lambda>out_angle.
       if out_channel = 3 then column surround_frame 3
       else
         (let rotated_angle = py_mod (real_of_int out_angle + yaw_degrees) 360;
              rotated_angle = (if rotated_angle > 180 then rotated_angle - 360 else rotated_angle)
          in amplitude_pan self surround_frame rotated_angle))"

fun rotate_loop ::
  "surround_rotator \<Rightarrow> frame \<Rightarrow> real \<Rightarrow> frame \<Rightarrow> nat list \<Rightarrow> error + frame" where
  "rotate_loop self surround_frame yaw_degrees output [] = Inr output"
| "rotate_loop self surround_frame yaw_degrees output (out_channel # rest) =
     bind_err (rotate_channel self surround_frame yaw_degrees out_channel) (\<lambda>sig.
     bind_err (set_column output out_channel sig) (\<lambda>output'.
       rotate_loop self surround_frame yaw_degrees output' rest))"

text \<open>\<open>SurroundRotator.rotate\<close>\<close>

definition SurroundRotator_rotate :: "surround_rotator \<Rightarrow> frame \<Rightarrow> real \<Rightarrow> error + frame" where
  "SurroundRotator_rotate self surround_frame yaw_degrees =
     rotate_loop self surround_frame yaw_degrees
       (zeros (nsamples surround_frame) (num_channels self))
       [0..<num_channels self]"

subsection \<open>The selection of the two closest speakers, in the words of the specification\<close>

text \<open>
  The distance of a channel's table angle to a target angle, the ranking
  "smaller distance first, lower channel index on a tie", and the statement that
  \<open>first\<close> and \<open>second\<close> are the two best ranked spatial channels. The spatial
  channels are stated here on their own, as the channels of the format other than
  channel 3 (the LFE), not through the list that the code filters.
\<close>

definition speaker_distance :: "surround_rotator \<Rightarrow> real \<Rightarrow> nat \<Rightarrow> real" where
  "speaker_distance self target ch =
     angle_distance (real_of_int (the (SPEAKER_ANGLES self ch))) target"

definition ranks_before :: "(nat \<Rightarrow> real) \<Rightarrow> nat \<Rightarrow> nat \<Rightarrow> bool" where
  "ranks_before d a b \<longleftrightarrow> d a < d b \<or> (d a = d b \<and> a \<le> b)"

definition two_closest :: "surround_rotator \<Rightarrow> real \<Rightarrow> nat \<Rightarrow> nat \<Rightarrow> bool" where
  "two_closest self target first second \<longleftrightarrow>
     first < num_channels self \<and> first \<noteq> 3 \<and>
     second < num_channels self \<and> second \<noteq> 3 \<and>
     first \<noteq> second \<and>
     (\<forall>c<num_channels self. c \<noteq> 3 \<longrightarrow>
        ranks_before (speaker_distance self target) first c) \<and>
     (\<forall>c<num_channels self. c \<noteq> 3 \<and> c \<noteq> first \<longrightarrow>
        ranks_before (speaker_distance self target) second c)"

section \<open>upmix.py: StereoTo71Upmixer\<close>

text \<open>Python's \<open>int(x)\<close> on a float: truncation towards zero.\<close>

definition py_int :: "real \<Rightarrow> int" where
  "py_int x = (if 0 \<le> x then \<lfloor>x\<rfloor> else \<lceil>x\<rceil>)"

text \<open>\<open>np.zeros(n)\<close>: a negative dimension is a ValueError.\<close>

definition np_zeros :: "int \<Rightarrow> error + real list" where
  "np_zeros n = (if n < 0 then Inl ValueError else Inr (replicate (nat n) 0))"

text \<open>
  The upmixer object. The filter design (\<open>signal.butter\<close>) and the filtering
  (\<open>signal.sosfilt\<close>) belong to scipy, not to the repository: the field
  \<open>lfe_filter\<close> is the function that \<open>signal.sosfilt(self.lfe_filter, x)\<close> computes
  on a block with samples, a parameter of the model. Where scipy raises is part of
  the model: \<open>signal.butter\<close> refuses a normalised cutoff outside the open interval
  from 0 to 1, and \<open>signal.sosfilt\<close> refuses a block without samples.
\<close>

record upmixer =
  sample_rate :: int
  upmix_format :: string
  upmix_num_channels :: nat
  surround_delay_samples :: int
  rear_delay_samples :: int
  lfe_filter :: "real list \<Rightarrow> real list"

text \<open>
  \<open>StereoTo71Upmixer._create_lfe_filter\<close>: \<open>cutoff / nyquist\<close> is a
  ZeroDivisionError at sample rate 0, and \<open>signal.butter(4, Wn, ...)\<close> is a
  ValueError unless \<open>0 < Wn < 1\<close>, that is unless the sample rate is above 160.
\<close>

definition create_lfe_filter ::
  "(real list \<Rightarrow> real list) \<Rightarrow> int \<Rightarrow> error + (real list \<Rightarrow> real list)" where
  "create_lfe_filter sosfilt rate =
     (let nyquist = real_of_int rate / 2;
          cutoff = 80
      in if nyquist = 0 then Inl ZeroDivisionError
         else (let wn = cutoff / nyquist
               in if 0 < wn \<and> wn < 1 then Inr sosfilt else Inl ValueError))"

text \<open>
  \<open>StereoTo71Upmixer.__init__\<close> with \<open>_setup_decorrelation_filters\<close>: the
  constructor raises what \<open>_create_lfe_filter\<close> raises.
\<close>

definition StereoTo71Upmixer ::
  "(real list \<Rightarrow> real list) \<Rightarrow> int \<Rightarrow> string \<Rightarrow> error + upmixer" where
  "StereoTo71Upmixer sosfilt rate fmt =
     (let surround = py_int (0.005 * real_of_int rate);
          rear = py_int (0.010 * real_of_int rate)
      in bind_err (create_lfe_filter sosfilt rate) (\<lambda>sos.
           Inr \<lparr>sample_rate = rate,
                upmix_format = fmt,
                upmix_num_channels = (if fmt = ''5.1'' then 6 else 8),
                surround_delay_samples = surround,
                rear_delay_samples = rear,
                lfe_filter = sos\<rparr>))"

text \<open>\<open>signal.sosfilt(self.lfe_filter, x)\<close>: a ValueError on a block without samples.\<close>

definition lfe_sosfilt :: "upmixer \<Rightarrow> real list \<Rightarrow> error + real list" where
  "lfe_sosfilt self x = (if x = [] then Inl ValueError else Inr (lfe_filter self x))"

text \<open>\<open>np.concatenate([np.zeros(delay), x])[:num_samples] * gain\<close>\<close>

definition delayed :: "int \<Rightarrow> nat \<Rightarrow> real \<Rightarrow> real list \<Rightarrow> error + real list" where
  "delayed delay num_samples gain x =
     bind_err (np_zeros delay) (\<lambda>pad.
       Inr (map (\<lambda>v. v * gain) (take num_samples (pad @ x))))"

text \<open>The rear surrounds of \<open>upmix\<close> (lines 95 to 109).\<close>

definition upmix_rear :: "upmixer \<Rightarrow> nat \<Rightarrow> real list \<Rightarrow> real list \<Rightarrow> frame \<Rightarrow> error + frame" where
  "upmix_rear self num_samples diff_left diff_right output =
     (if upmix_format self = ''7.1'' then
        bind_err (delayed (rear_delay_samples self) num_samples 0.5 (map uminus diff_left))
          (\<lambda>lb_signal.
        bind_err (delayed (rear_delay_samples self) num_samples 0.5 (map uminus diff_right))
          (\<lambda>rb_signal.
        bind_err (set_column output 6 lb_signal) (\<lambda>output.
        set_column output 7 rb_signal)))
      else Inr output)"

text \<open>\<open>StereoTo71Upmixer.upmix\<close>\<close>

definition upmix :: "upmixer \<Rightarrow> frame \<Rightarrow> error + frame" where
  "upmix self stereo_frame =
     (let num_samples = nsamples stereo_frame;
          output = zeros num_samples (upmix_num_channels self)
      in bind_err (column stereo_frame 0) (\<lambda>left.
         bind_err (column stereo_frame 1) (\<lambda>right.
         bind_err (set_column output 0 left) (\<lambda>output.
         bind_err (set_column output 1 right) (\<lambda>output.
         bind_err (set_column output 2 (map2 (\<lambda>l r. (l + r) * 0.5) left right)) (\<lambda>output.
         let lfe_sum = map2 (\<lambda>l r. (l + r) * 0.5) left right
         in bind_err (lfe_sosfilt self lfe_sum) (\<lambda>lfe.
            bind_err (set_column output 3 lfe) (\<lambda>output.
         let diff_left = map2 (\<lambda>l r. l - r) left right;
             diff_right = map2 (\<lambda>r l. r - l) right left
         in bind_err (delayed (surround_delay_samples self) num_samples 0.7 diff_left)
              (\<lambda>ls_signal.
            bind_err (delayed (surround_delay_samples self) num_samples 0.7 diff_right)
              (\<lambda>rs_signal.
            bind_err (set_column output 4 ls_signal) (\<lambda>output.
            bind_err (set_column output 5 rs_signal) (\<lambda>output.
            upmix_rear self num_samples diff_left diff_right output))))))))))))"

section \<open>stereo_rotation.py: StereoRotator\<close>

text \<open>
  Lines 33 to 75 of \<open>StereoRotator.rotate\<close>: from the yaw to the local variables
  \<open>volume\<close>, \<open>pan_yaw\<close>, \<open>left_gain\<close> and \<open>right_gain\<close>, returned in this order.
\<close>

definition stereo_gains :: "real \<Rightarrow> real \<times> real \<times> real \<times> real" where
  "stereo_gains yaw_degrees =
     (let yaw = py_mod yaw_degrees 360;
          yaw = (if yaw > 180 then yaw - 360 else yaw);
          abs_yaw = \<bar>yaw\<bar>;
          (volume, pan_yaw) =
            (if abs_yaw > 90 then
               (let rear_factor = (abs_yaw - 90) / 90;
                    volume = 1 - rear_factor * 0.8;
                    mirrored_yaw = 180 - abs_yaw
                in (volume, if yaw < 0 then - mirrored_yaw else mirrored_yaw))
             else (1, yaw));
          pan = - pan_yaw / 90;
          pan = max (- 1) (min 1 pan);
          pan_radians = pan * pi / 4;
          left_gain = cos (pan_radians - pi / 4) * volume;
          right_gain = cos (pan_radians + pi / 4) * volume
      in (volume, pan_yaw, left_gain, right_gain))"

definition stereo_volume :: "real \<Rightarrow> real" where
  "stereo_volume yaw_degrees = fst (stereo_gains yaw_degrees)"

definition stereo_pan_yaw :: "real \<Rightarrow> real" where
  "stereo_pan_yaw yaw_degrees = fst (snd (stereo_gains yaw_degrees))"

definition stereo_left_gain :: "real \<Rightarrow> real" where
  "stereo_left_gain yaw_degrees = fst (snd (snd (stereo_gains yaw_degrees)))"

definition stereo_right_gain :: "real \<Rightarrow> real" where
  "stereo_right_gain yaw_degrees = snd (snd (snd (stereo_gains yaw_degrees)))"

text \<open>\<open>StereoRotator.rotate\<close>\<close>

definition StereoRotator_rotate :: "frame \<Rightarrow> real \<Rightarrow> error + frame" where
  "StereoRotator_rotate stereo_frame yaw_degrees =
     (let num_samples = nsamples stereo_frame
      in bind_err (column stereo_frame 0) (\<lambda>left.
         bind_err (column stereo_frame 1) (\<lambda>right.
         let (volume, pan_yaw, left_gain, right_gain) = stereo_gains yaw_degrees;
             output = zeros num_samples 2;
             mono = map2 (\<lambda>l r. (l + r) * 0.5) left right
         in bind_err (set_column output 0 (map (\<lambda>m. m * left_gain) mono)) (\<lambda>output.
            set_column output 1 (map (\<lambda>m. m * right_gain) mono)))))"

section \<open>audio_io.py: the stream callback\<close>

text \<open>
  What \<open>sd_callback\<close> prints: the stream status, the warning about the channel
  count (expected, got) and the error caught by \<open>except Exception\<close>.
\<close>

datatype log_entry = StatusPrinted | ChannelWarning nat nat | CallbackError error

text \<open>
  Lines 186 to 190 of \<open>sd_callback\<close>, "ensure input is correct shape": a block of
  fewer than two channels has its first channel twice, any other block its first
  two channels.
\<close>

definition stereo_input :: "frame \<Rightarrow> error + frame" where
  "stereo_input indata =
     (if length (columns indata) < 2 then
        bind_err (column indata 0) (\<lambda>c.
          Inr \<lparr>nsamples = nsamples indata, columns = [c, c]\<rparr>)
      else Inr \<lparr>nsamples = nsamples indata, columns = take 2 (columns indata)\<rparr>)"

text \<open>
  \<open>AudioIO.start_stream.sd_callback\<close>, lines 179 to 208. The parameters
  \<open>self_callback\<close> and \<open>self_output_channels\<close> are the fields \<open>callback\<close> and
  \<open>output_channels\<close> of the \<open>AudioIO\<close> object; \<open>outdata\<close> is the
  buffer to fill, of which only the shape is read. The result is what was printed
  and the new content of \<open>outdata\<close>. The body of \<open>try\<close> is a computation in
  \<open>error + frame\<close>; \<open>except Exception\<close> turns every error into a printed line and
  a buffer of zeros (\<open>outdata.fill(0)\<close>). A warning printed before an exception
  stays printed.
\<close>

definition sd_callback ::
  "(frame \<Rightarrow> error + frame) \<Rightarrow> nat \<Rightarrow> frame \<Rightarrow> frame \<Rightarrow> nat \<Rightarrow> bool
     \<Rightarrow> log_entry list \<times> frame" where
  "sd_callback self_callback self_output_channels indata outdata frames status =
     (let printed = (if status then [StatusPrinted] else []);
          silence = zeros (nsamples outdata) (length (columns outdata))
      in case bind_err (stereo_input indata) self_callback of
           Inl e \<Rightarrow> (printed @ [CallbackError e], silence)
         | Inr result \<Rightarrow>
             (let k = length (columns result);
                  printed = (if k \<noteq> self_output_channels
                             then printed @ [ChannelWarning self_output_channels k]
                             else printed);
                  padded =
                    (if k \<noteq> self_output_channels \<and> k < self_output_channels then
                       bind_err (assign_block frames k result) (\<lambda>block.
                         Inr \<lparr>nsamples = frames,
                              columns = columns block
                                @ replicate (self_output_channels - k) (replicate frames 0)\<rparr>)
                     else Inr result)
              in case bind_err padded (\<lambda>result.
                        assign_block (nsamples outdata) (length (columns outdata))
                          \<lparr>nsamples = nsamples result,
                           columns = take (length (columns outdata)) (columns result)\<rparr>) of
                   Inl e \<Rightarrow> (printed @ [CallbackError e], silence)
                 | Inr filled \<Rightarrow> (printed, filled)))"

section \<open>Auxiliary notions of the proofs\<close>

text \<open>The ranking on (key, channel) pairs.\<close>

definition ranks_pair :: "(real \<times> nat) \<Rightarrow> (real \<times> nat) \<Rightarrow> bool" where
  "ranks_pair p q \<longleftrightarrow> fst p < fst q \<or> (fst p = fst q \<and> snd p \<le> snd q)"

text \<open>
  The normalisation of lines 70 to 72 of \<open>rotate\<close> (and of lines 34 to 36 of the
  stereo rotator), named: the angle brought into the range from -180 (excluded)
  to 180 (included).
\<close>

definition normalize_angle :: "real \<Rightarrow> real" where
  "normalize_angle x = (let r = py_mod x 360 in if r > 180 then r - 360 else r)"

text \<open>The upmixer object that the constructor returns when it does not raise.\<close>

definition upmixer_of :: "(real list \<Rightarrow> real list) \<Rightarrow> int \<Rightarrow> string \<Rightarrow> upmixer" where
  "upmixer_of sosfilt rate fmt =
     \<lparr>sample_rate = rate,
      upmix_format = fmt,
      upmix_num_channels = (if fmt = ''5.1'' then 6 else 8),
      surround_delay_samples = py_int (0.005 * real_of_int rate),
      rear_delay_samples = py_int (0.010 * real_of_int rate),
      lfe_filter = sosfilt\<rparr>"

section \<open>Proofs: the error monad and the stable sort\<close>

lemma bind_err_simps [simp]: "bind_err (Inr x) k = k x" "bind_err (Inl e) k = Inl e"
  by (simp_all add: bind_err_def)

lemma bind_err_eq_Inr: "bind_err m k = Inr y \<longleftrightarrow> (\<exists>x. m = Inr x \<and> k x = Inr y)"
  by (cases m) simp_all

lemma map_err_Inr: "(\<And>x. x \<in> set xs \<Longrightarrow> g x = Inr (h x)) \<Longrightarrow> map_err g xs = Inr (map h xs)"
  by (induction xs) simp_all

lemma zip_map_self: "zip (map d xs) xs = map (\<lambda>c. (d c, c)) xs"
  by (induction xs) simp_all

lemma insort_key_ranks:
  assumes "sorted_wrt ranks_pair s" and "\<forall>q\<in>set s. snd z < snd q"
  shows "sorted_wrt ranks_pair (insort_key fst z s)"
  using assms
proof (induction s)
  case Nil
  then show ?case by simp
next
  case (Cons y ys)
  show ?case
  proof (cases "fst z \<le> fst y")
    case True
    have "ranks_pair z q" if "q \<in> set (y # ys)" for q
    proof -
      have "fst y \<le> fst q" using that Cons.prems(1) by (auto simp: ranks_pair_def)
      moreover have "snd z < snd q" using that Cons.prems(2) by auto
      ultimately show ?thesis using True by (auto simp: ranks_pair_def)
    qed
    then show ?thesis using True Cons.prems(1) by simp
  next
    case False
    then have "ranks_pair y z" by (simp add: ranks_pair_def)
    moreover have "sorted_wrt ranks_pair (insort_key fst z ys)"
      using Cons by simp
    ultimately show ?thesis using False Cons.prems(1) by (auto simp: set_insort_key)
  qed
qed

lemma sort_key_ranks:
  "sorted_wrt (\<lambda>p q. snd p < snd q) zs \<Longrightarrow> sorted_wrt ranks_pair (sort_key fst zs)"
proof (induction zs)
  case Nil
  then show ?case by simp
next
  case (Cons z zs)
  then show ?case by (simp add: insort_key_ranks)
qed

lemma take2_sort_key:
  fixes chans :: "nat list" and d :: "nat \<Rightarrow> real"
  assumes srt: "sorted_wrt (<) chans" and len: "2 \<le> length chans"
  shows "\<exists>a b. take 2 (map snd (sort_key fst (map (\<lambda>c. (d c, c)) chans))) = [a, b]
           \<and> a \<in> set chans \<and> b \<in> set chans \<and> a \<noteq> b
           \<and> (\<forall>c\<in>set chans. ranks_before d a c)
           \<and> (\<forall>c\<in>set chans. c \<noteq> a \<longrightarrow> ranks_before d b c)"
proof -
  let ?zs = "map (\<lambda>c. (d c, c)) chans"
  let ?s = "sort_key fst ?zs"
  have sorted: "sorted_wrt ranks_pair ?s"
    using srt by (intro sort_key_ranks) (simp add: sorted_wrt_map)
  have "length ?s = length chans" by simp
  with len obtain p q rest where s: "?s = p # q # rest"
    by (cases ?s; cases "tl ?s") auto
  have set_s: "set ?s = set ?zs" by simp
  have "distinct chans" using srt by (simp add: strict_sorted_iff)
  then have "distinct ?zs" by (simp add: distinct_map inj_on_def)
  then have "distinct ?s" by simp
  then have dist_s: "distinct (p # q # rest)" using s by simp
  have mem: "set ?zs = set (p # q # rest)" using set_s s by simp
  then have "p \<in> set ?zs" "q \<in> set ?zs" by simp_all
  then obtain a b where a: "a \<in> set chans" "p = (d a, a)" and b: "b \<in> set chans" "q = (d b, b)"
    by auto
  have srt': "sorted_wrt ranks_pair (p # q # rest)" using sorted s by simp
  have first: "ranks_pair p x" if "x \<in> set ?zs" for x
  proof -
    have "x = p \<or> x \<in> set (q # rest)" using that mem by auto
    then show ?thesis using srt' by (auto simp: ranks_pair_def)
  qed
  have second: "ranks_pair q x" if "x \<in> set ?zs" "x \<noteq> p" for x
  proof -
    have "x = q \<or> x \<in> set rest" using that mem by auto
    then show ?thesis using srt' by (auto simp: ranks_pair_def)
  qed
  have "take 2 (map snd ?s) = [a, b]" using s a b by simp
  moreover have "a \<noteq> b" using dist_s a b by auto
  moreover have "ranks_before d a c" if "c \<in> set chans" for c
    using first [of "(d c, c)"] that a by (simp add: ranks_pair_def ranks_before_def)
  moreover have "ranks_before d b c" if "c \<in> set chans" "c \<noteq> a" for c
    using second [of "(d c, c)"] that a b by (simp add: ranks_pair_def ranks_before_def)
  ultimately show ?thesis using a b by blast
qed

lemma set_spatial_channels:
  "set (spatial_channels self) = {c. c < num_channels self \<and> c \<noteq> 3}"
  by (auto simp: spatial_channels_def)

lemma two_closest_spatial:
  "two_closest self target first second \<longleftrightarrow>
     first \<in> set (spatial_channels self) \<and> second \<in> set (spatial_channels self) \<and>
     first \<noteq> second \<and>
     (\<forall>c\<in>set (spatial_channels self).
        ranks_before (speaker_distance self target) first c) \<and>
     (\<forall>c\<in>set (spatial_channels self).
        c \<noteq> first \<longrightarrow> ranks_before (speaker_distance self target) second c)"
  unfolding two_closest_def set_spatial_channels by auto

lemma spatial_sorted: "sorted_wrt (<) (spatial_channels self)"
  unfolding spatial_channels_def by (rule sorted_wrt_filter) (simp add: strict_sorted_iff)

lemma closest_channels_two:
  assumes dom: "\<forall>c\<in>set (spatial_channels self). SPEAKER_ANGLES self c \<noteq> None"
    and len: "2 \<le> length (spatial_channels self)"
  shows "\<exists>first second. closest_channels self target = Inr [first, second]
           \<and> two_closest self target first second"
proof -
  let ?d = "speaker_distance self target"
  have keys: "map_err (\<lambda>ch. bind_err (getitem (SPEAKER_ANGLES self) ch)
                        (\<lambda>a. Inr (angle_distance (real_of_int a) target)))
          (spatial_channels self) = Inr (map ?d (spatial_channels self))"
    using dom by (intro map_err_Inr) (auto simp: getitem_def speaker_distance_def)
  have cc: "closest_channels self target =
      Inr (take 2 (map snd (sort_key fst (map (\<lambda>c. (?d c, c)) (spatial_channels self)))))"
    by (simp add: closest_channels_def keys zip_map_self)
  from take2_sort_key [OF spatial_sorted len, of ?d]
  show ?thesis unfolding cc two_closest_spatial by blast
qed

section \<open>Proofs: the loop of rotate\<close>

lemma set_column_exact:
  "i < length (columns out) \<Longrightarrow> length v = nsamples out \<Longrightarrow>
   set_column out i v = Inr (out\<lparr>columns := (columns out)[i := v]\<rparr>)"
  by (simp add: set_column_def)

lemma set_column_Inr:
  assumes "set_column out i v = Inr out'"
  shows "nsamples out' = nsamples out \<and> length (columns out') = length (columns out)
         \<and> i < length (columns out)
         \<and> columns out' ! i = stored_column (nsamples out) v
         \<and> (\<forall>c. c \<noteq> i \<longrightarrow> columns out' ! c = columns out ! c)"
  using assms by (auto simp: set_column_def stored_column_def split: if_splits)

lemma rotate_loop_total:
  assumes "\<forall>c\<in>set cs. c < length (columns out) \<and>
             (\<exists>s. rotate_channel self f yaw c = Inr s \<and> length s = nsamples out)"
  shows "\<exists>res. rotate_loop self f yaw out cs = Inr res"
  using assms
proof (induction cs arbitrary: out)
  case Nil
  then show ?case by simp
next
  case (Cons x xs)
  from Cons.prems obtain s where s: "rotate_channel self f yaw x = Inr s"
    "length s = nsamples out" "x < length (columns out)" by auto
  let ?out' = "out\<lparr>columns := (columns out)[x := s]\<rparr>"
  have "\<exists>res. rotate_loop self f yaw ?out' xs = Inr res"
    using Cons.prems by (intro Cons.IH) simp
  then show ?case using s by (simp add: set_column_exact)
qed

lemma rotate_loop_result:
  assumes "rotate_loop self f yaw out cs = Inr res" and "distinct cs"
  shows "nsamples res = nsamples out \<and> length (columns res) = length (columns out)
         \<and> (\<forall>c\<in>set cs. \<exists>s. rotate_channel self f yaw c = Inr s \<and> c < length (columns out)
               \<and> columns res ! c = stored_column (nsamples out) s)
         \<and> (\<forall>c. c \<notin> set cs \<longrightarrow> columns res ! c = columns out ! c)"
  using assms
proof (induction cs arbitrary: out)
  case Nil
  then show ?case by simp
next
  case (Cons x xs)
  from Cons.prems(1) obtain s out' where
    s: "rotate_channel self f yaw x = Inr s" and
    o: "set_column out x s = Inr out'" and
    r: "rotate_loop self f yaw out' xs = Inr res"
    by (auto simp: bind_err_eq_Inr)
  note so = set_column_Inr [OF o]
  have dx: "x \<notin> set xs" "distinct xs" using Cons.prems(2) by auto
  note ih = Cons.IH [OF r dx(2)]
  have shape: "nsamples res = nsamples out" "length (columns res) = length (columns out)"
    using ih so by auto
  have here: "columns res ! x = stored_column (nsamples out) s"
    using ih so dx by auto
  have later: "\<exists>s. rotate_channel self f yaw c = Inr s \<and> c < length (columns out)
               \<and> columns res ! c = stored_column (nsamples out) s"
    if "c \<in> set xs" for c
    using ih so that by auto
  have other: "columns res ! c = columns out ! c" if "c \<notin> set (x # xs)" for c
    using ih so that by auto
  show ?case using shape here later other s so by auto
qed

section \<open>Proofs: the rotator on the shipped tables\<close>

lemma num_channels_cases:
  "num_channels (SurroundRotator fmt) = (if fmt = ''5.1'' then 6 else 8)"
  by (simp add: SurroundRotator_def)

lemma spatial_channels_rotator:
  "spatial_channels (SurroundRotator fmt) =
     (if fmt = ''5.1'' then [0, 1, 2, 4, 5] else [0, 1, 2, 4, 5, 6, 7])"
proof (cases "fmt = ''5.1''")
  case True
  then show ?thesis by (simp add: spatial_channels_def SurroundRotator_def upt_rec)
next
  case False
  then show ?thesis by (simp add: spatial_channels_def SurroundRotator_def upt_rec)
qed

lemma speaker_angles_defined:
  "c < num_channels (SurroundRotator fmt) \<Longrightarrow> \<exists>a. SPEAKER_ANGLES (SurroundRotator fmt) c = Some a"
  by (auto simp: SurroundRotator_def SPEAKER_ANGLES_51_def SPEAKER_ANGLES_71_def
      less_Suc_eq numeral_eq_Suc split: if_splits)

lemma spatial_in_range:
  "c \<in> set (spatial_channels self) \<Longrightarrow> c < num_channels self \<and> c \<noteq> 3"
  by (auto simp: spatial_channels_def)

lemma closest_channels_rotator:
  "\<exists>first second. closest_channels (SurroundRotator fmt) target = Inr [first, second]
           \<and> two_closest (SurroundRotator fmt) target first second"
proof (rule closest_channels_two)
  show "\<forall>c\<in>set (spatial_channels (SurroundRotator fmt)).
          SPEAKER_ANGLES (SurroundRotator fmt) c \<noteq> None"
    using speaker_angles_defined spatial_in_range by fastforce
  show "2 \<le> length (spatial_channels (SurroundRotator fmt))"
    by (simp add: spatial_channels_rotator)
qed

lemma column_Inr: "i < length (columns f) \<Longrightarrow> column f i = Inr (columns f ! i)"
  by (simp add: column_def)

lemma amplitude_pan_two:
  assumes cc: "closest_channels self target = Inr [ch1, ch2]"
    and a1: "SPEAKER_ANGLES self ch1 = Some a1" and a2: "SPEAKER_ANGLES self ch2 = Some a2"
    and r1: "ch1 < length (columns f)" and r2: "ch2 < length (columns f)"
  shows "amplitude_pan self f target =
     Inr (map2 (\<lambda>a b. a * fst (pan_weights (speaker_distance self target ch1)
                                    (speaker_distance self target ch2))
                     + b * snd (pan_weights (speaker_distance self target ch1)
                                    (speaker_distance self target ch2)))
            (columns f ! ch1) (columns f ! ch2))"
  using assms
  by (simp add: amplitude_pan_def getitem_def column_Inr speaker_distance_def
      split_beta Let_def)

lemma wf_frame_length: "wf_frame f \<Longrightarrow> i < length (columns f) \<Longrightarrow> length (columns f ! i) = nsamples f"
  by (simp add: wf_frame_def list_all_length)

lemma rotate_channel_lfe:
  "rotate_channel (SurroundRotator fmt) f yaw 3 = column f 3"
  by (simp add: rotate_channel_def SurroundRotator_def getitem_def
      SPEAKER_ANGLES_51_def SPEAKER_ANGLES_71_def)

lemma rotate_channel_spatial:
  assumes "SPEAKER_ANGLES self out = Some a" "out \<noteq> 3"
  shows "rotate_channel self f yaw out =
           amplitude_pan self f (normalize_angle (real_of_int a + yaw))"
  using assms by (simp add: rotate_channel_def getitem_def normalize_angle_def Let_def)

lemma rotate_channel_pans:
  assumes wf: "wf_frame f" and wide: "num_channels (SurroundRotator fmt) \<le> length (columns f)"
    and a: "SPEAKER_ANGLES (SurroundRotator fmt) out = Some a" and out: "out \<noteq> 3"
  shows "\<exists>first second.
     two_closest (SurroundRotator fmt) (normalize_angle (real_of_int a + yaw)) first second \<and>
     rotate_channel (SurroundRotator fmt) f yaw out =
       Inr (map2 (\<lambda>x y. x * fst (pan_weights
                     (speaker_distance (SurroundRotator fmt) (normalize_angle (real_of_int a + yaw)) first)
                     (speaker_distance (SurroundRotator fmt) (normalize_angle (real_of_int a + yaw)) second))
                   + y * snd (pan_weights
                     (speaker_distance (SurroundRotator fmt) (normalize_angle (real_of_int a + yaw)) first)
                     (speaker_distance (SurroundRotator fmt) (normalize_angle (real_of_int a + yaw)) second)))
            (columns f ! first) (columns f ! second))"
proof -
  let ?R = "SurroundRotator fmt"
  let ?t = "normalize_angle (real_of_int a + yaw)"
  from closest_channels_rotator obtain first second where
    cc: "closest_channels ?R ?t = Inr [first, second]" and tc: "two_closest ?R ?t first second"
    by blast
  have in1: "first < num_channels ?R" and in2: "second < num_channels ?R"
    using tc spatial_in_range by (auto simp: two_closest_spatial)
  obtain a1 a2 where a12: "SPEAKER_ANGLES ?R first = Some a1" "SPEAKER_ANGLES ?R second = Some a2"
    using speaker_angles_defined in1 in2 by blast
  have "amplitude_pan ?R f ?t = Inr (map2 (\<lambda>x y. x * fst (pan_weights
                     (speaker_distance ?R ?t first) (speaker_distance ?R ?t second))
                   + y * snd (pan_weights
                     (speaker_distance ?R ?t first) (speaker_distance ?R ?t second)))
            (columns f ! first) (columns f ! second))"
    using in1 in2 wide by (intro amplitude_pan_two [OF cc a12]) simp_all
  then show ?thesis using tc rotate_channel_spatial [OF a out] by auto
qed

lemma rotate_channel_total:
  assumes wf: "wf_frame f" and wide: "num_channels (SurroundRotator fmt) \<le> length (columns f)"
    and c: "c < num_channels (SurroundRotator fmt)"
  shows "\<exists>s. rotate_channel (SurroundRotator fmt) f yaw c = Inr s \<and> length s = nsamples f"
proof (cases "c = 3")
  case True
  have "3 < length (columns f)" using wide by (simp add: num_channels_cases split: if_splits)
  then show ?thesis using True wf
    by (simp add: rotate_channel_lfe column_Inr wf_frame_length)
next
  case False
  obtain a where a: "SPEAKER_ANGLES (SurroundRotator fmt) c = Some a"
    using speaker_angles_defined [OF c] by blast
  from rotate_channel_pans [OF wf wide a False, of yaw] obtain first second s where
    tc: "two_closest (SurroundRotator fmt) (normalize_angle (real_of_int a + yaw)) first second"
    and s: "rotate_channel (SurroundRotator fmt) f yaw c = Inr (map2 s (columns f ! first) (columns f ! second))"
    by blast
  have "first < length (columns f)" "second < length (columns f)"
    using tc spatial_in_range wide by (fastforce simp: two_closest_spatial)+
  then show ?thesis using s wf by (simp add: wf_frame_length)
qed

lemma rotate_total:
  assumes wf: "wf_frame f" and wide: "num_channels (SurroundRotator fmt) \<le> length (columns f)"
  shows "\<exists>res. SurroundRotator_rotate (SurroundRotator fmt) f yaw = Inr res"
  unfolding SurroundRotator_rotate_def
  using rotate_channel_total [OF wf wide]
  by (intro rotate_loop_total) (simp add: zeros_def)

lemma rotate_result:
  assumes "SurroundRotator_rotate self f yaw = Inr res"
  shows "nsamples res = nsamples f \<and> length (columns res) = num_channels self
         \<and> (\<forall>c<num_channels self. \<exists>s. rotate_channel self f yaw c = Inr s
               \<and> columns res ! c = stored_column (nsamples f) s)"
  using rotate_loop_result [OF assms [unfolded SurroundRotator_rotate_def]]
  by (simp add: zeros_def)

section \<open>The claims about SurroundRotator\<close>

text \<open>
  Claim C2. For every well-formed input frame, every yaw and every format string,
  whenever \<open>SurroundRotator.rotate\<close> returns a frame, its channel 3 (LFE) is
  channel 3 of the input, sample for sample; and it does return a frame whenever
  the input has at least the channels of the format (6 for "5.1", 8 otherwise).
\<close>

theorem rotate_lfe_passthrough:
  assumes wf: "wf_frame f"
  shows "(\<forall>res. SurroundRotator_rotate (SurroundRotator fmt) f yaw = Inr res
            \<longrightarrow> columns res ! 3 = columns f ! 3)
       \<and> (num_channels (SurroundRotator fmt) \<le> length (columns f)
            \<longrightarrow> (\<exists>res. SurroundRotator_rotate (SurroundRotator fmt) f yaw = Inr res))"
proof (intro conjI allI impI)
  fix res
  assume r: "SurroundRotator_rotate (SurroundRotator fmt) f yaw = Inr res"
  have "3 < num_channels (SurroundRotator fmt)" by (simp add: num_channels_cases)
  with rotate_result [OF r] obtain s where
    s: "rotate_channel (SurroundRotator fmt) f yaw 3 = Inr s"
    and c: "columns res ! 3 = stored_column (nsamples f) s"
    by blast
  from s have col: "column f 3 = Inr s" by (simp add: rotate_channel_lfe)
  then have "3 < length (columns f)" "s = columns f ! 3"
    by (auto simp: column_def split: if_splits)
  then show "columns res ! 3 = columns f ! 3"
    using c wf by (simp add: stored_column_def wf_frame_length)
next
  assume "num_channels (SurroundRotator fmt) \<le> length (columns f)"
  then show "\<exists>res. SurroundRotator_rotate (SurroundRotator fmt) f yaw = Inr res"
    using rotate_total [OF wf] by blast
qed

text \<open>The hypotheses of C2 hold at a one-sample 5.1 frame turned by 45 degrees.\<close>

theorem rotate_lfe_passthrough_witness:
  "wf_frame \<lparr>nsamples = 1, columns = [[1], [2], [3], [4], [5], [6]]\<rparr>
   \<and> (\<exists>res. SurroundRotator_rotate (SurroundRotator ''5.1'')
               \<lparr>nsamples = 1, columns = [[1], [2], [3], [4], [5], [6]]\<rparr> 45 = Inr res
             \<and> columns res ! 3 = [4])"
proof -
  let ?f = "\<lparr>nsamples = 1, columns = [[1], [2], [3], [4], [5], [6 :: real]]\<rparr>"
  have wf: "wf_frame ?f" by (simp add: wf_frame_def)
  have wide: "num_channels (SurroundRotator ''5.1'') \<le> length (columns ?f)"
    by (simp add: num_channels_cases)
  from rotate_lfe_passthrough [OF wf, of "''5.1''" 45] wide
  obtain res where "SurroundRotator_rotate (SurroundRotator ''5.1'') ?f 45 = Inr res"
    "columns res ! 3 = columns ?f ! 3" by blast
  then show ?thesis using wf by auto
qed

lemma py_mod_range: "0 \<le> py_mod x 360 \<and> py_mod x 360 < 360"
proof -
  have "real_of_int \<lfloor>x / 360\<rfloor> \<le> x / 360" "x / 360 < real_of_int \<lfloor>x / 360\<rfloor> + 1"
    by linarith+
  then show ?thesis by (simp add: py_mod_def field_simps)
qed

lemma normalize_angle_spec:
  "- 180 < normalize_angle x \<and> normalize_angle x \<le> 180
   \<and> (\<exists>k::int. normalize_angle x = x + 360 * real_of_int k)"
proof -
  have rng: "0 \<le> py_mod x 360" "py_mod x 360 < 360" using py_mod_range by auto
  have e1: "py_mod x 360 = x + 360 * real_of_int (- \<lfloor>x / 360\<rfloor>)"
    by (simp add: py_mod_def)
  have e2: "py_mod x 360 - 360 = x + 360 * real_of_int (- \<lfloor>x / 360\<rfloor> - 1)"
    by (simp add: py_mod_def)
  show ?thesis
  proof (cases "py_mod x 360 > 180")
    case True
    then have n: "normalize_angle x = py_mod x 360 - 360" by (simp add: normalize_angle_def)
    have "- 180 < normalize_angle x" "normalize_angle x \<le> 180"
      using n True rng by linarith+
    moreover have "\<exists>k::int. normalize_angle x = x + 360 * real_of_int k"
      using n e2 by metis
    ultimately show ?thesis by blast
  next
    case False
    then have n: "normalize_angle x = py_mod x 360" by (simp add: normalize_angle_def)
    have "- 180 < normalize_angle x" "normalize_angle x \<le> 180"
      using n False rng by linarith+
    moreover have "\<exists>k::int. normalize_angle x = x + 360 * real_of_int k"
      using n e1 by metis
    ultimately show ?thesis by blast
  qed
qed

lemma pan_weights_spec:
  "pan_weights d1 d2 =
     (if d1 + d2 < 0.1 then 1 else cos (d1 / (d1 + d2) * pi / 2),
      if d1 + d2 < 0.1 then 0 else sin (d1 / (d1 + d2) * pi / 2))"
  by (simp add: pan_weights_def Let_def)

text \<open>
  Claim C1. For a well-formed frame with at least the channels of the format, every
  yaw and every output channel other than the LFE: \<open>rotate\<close> returns a frame; the
  target angle is the table angle of the output channel plus the yaw, normalised
  into the range from -180 (excluded) to 180 (included); \<open>first\<close> and \<open>second\<close>
  are channels of the format other than the LFE (channel 3), and among all such
  channels they are the two of smallest angular distance to the target, ties going
  to the lower channel index; and the output channel is
  \<open>cos(t pi/2) source[first] + sin(t pi/2) source[second]\<close> with
  \<open>t = d1/(d1+d2)\<close>, or \<open>source[first]\<close> alone (weights 1 and 0) when
  \<open>d1 + d2 < 0.1\<close>.
\<close>

theorem rotate_pans_two_closest:
  assumes wf: "wf_frame f"
    and wide: "num_channels (SurroundRotator fmt) \<le> length (columns f)"
    and out: "out < num_channels (SurroundRotator fmt)" and spatial: "out \<noteq> 3"
  shows "\<exists>rotated a target first second.
     SurroundRotator_rotate (SurroundRotator fmt) f yaw = Inr rotated \<and>
     SPEAKER_ANGLES (SurroundRotator fmt) out = Some a \<and>
     - 180 < target \<and> target \<le> 180 \<and>
     (\<exists>k::int. target = real_of_int a + yaw + 360 * real_of_int k) \<and>
     first \<noteq> 3 \<and> second \<noteq> 3 \<and>
     first < num_channels (SurroundRotator fmt) \<and>
     second < num_channels (SurroundRotator fmt) \<and>
     two_closest (SurroundRotator fmt) target first second \<and>
     (let d1 = speaker_distance (SurroundRotator fmt) target first;
          d2 = speaker_distance (SurroundRotator fmt) target second;
          t = d1 / (d1 + d2);
          w1 = (if d1 + d2 < 0.1 then 1 else cos (t * pi / 2));
          w2 = (if d1 + d2 < 0.1 then 0 else sin (t * pi / 2))
      in columns rotated ! out =
           map2 (\<lambda>x y. w1 * x + w2 * y) (columns f ! first) (columns f ! second))"
proof -
  let ?R = "SurroundRotator fmt"
  obtain rotated where rot: "SurroundRotator_rotate ?R f yaw = Inr rotated"
    using rotate_total [OF wf wide] by blast
  obtain a where a: "SPEAKER_ANGLES ?R out = Some a"
    using speaker_angles_defined [OF out] by blast
  let ?t = "normalize_angle (real_of_int a + yaw)"
  let ?d = "speaker_distance ?R ?t"
  from rotate_channel_pans [OF wf wide a spatial, of yaw] obtain first second where
    tc: "two_closest ?R ?t first second" and
    rc: "rotate_channel ?R f yaw out =
       Inr (map2 (\<lambda>x y. x * fst (pan_weights (?d first) (?d second))
                       + y * snd (pan_weights (?d first) (?d second)))
            (columns f ! first) (columns f ! second))"
    by blast
  have inr: "first < length (columns f)" "second < length (columns f)"
    using tc spatial_in_range wide by (fastforce simp: two_closest_spatial)+
  from rotate_result [OF rot] out obtain s where
    s: "rotate_channel ?R f yaw out = Inr s" "columns rotated ! out = stored_column (nsamples f) s"
    by blast
  have len: "length s = nsamples f"
    using s(1) rc inr wf by (auto simp: wf_frame_length)
  have col: "columns rotated ! out =
      map2 (\<lambda>x y. x * fst (pan_weights (?d first) (?d second))
                       + y * snd (pan_weights (?d first) (?d second)))
            (columns f ! first) (columns f ! second)"
    using s rc len by (simp add: stored_column_def)
  have final: "(let d1 = ?d first; d2 = ?d second;
          t = d1 / (d1 + d2);
          w1 = (if d1 + d2 < 0.1 then 1 else cos (t * pi / 2));
          w2 = (if d1 + d2 < 0.1 then 0 else sin (t * pi / 2))
      in columns rotated ! out =
           map2 (\<lambda>x y. w1 * x + w2 * y) (columns f ! first) (columns f ! second))"
    unfolding col Let_def pan_weights_spec by (simp add: mult.commute)
  from normalize_angle_spec [of "real_of_int a + yaw"]
  have rng: "- 180 < ?t" "?t \<le> 180" "\<exists>k::int. ?t = real_of_int a + yaw + 360 * real_of_int k"
    by auto
  have lfe: "first \<noteq> 3" "second \<noteq> 3"
    "first < num_channels ?R" "second < num_channels ?R"
    using tc by (simp_all add: two_closest_def)
  show ?thesis using rot a rng lfe tc final by blast
qed

lemma angle_distance_sym: "angle_distance a b = angle_distance b a"
  by (simp add: angle_distance_def abs_minus_commute)

lemma angle_distance_range: "0 \<le> angle_distance a b \<and> angle_distance a b \<le> 180"
  using py_mod_range [of "\<bar>a - b\<bar>"] by (auto simp: angle_distance_def Let_def)

lemma angle_distance_repr: "\<exists>k::int. angle_distance a b = \<bar>a - b - 360 * real_of_int k\<bar>"
proof -
  let ?x = "\<bar>a - b\<bar>"
  let ?m = "\<lfloor>?x / 360\<rfloor>"
  let ?r = "py_mod ?x 360"
  have r: "?r = ?x - 360 * real_of_int ?m" by (simp add: py_mod_def)
  have rng: "0 \<le> ?r" "?r < 360" using py_mod_range by auto
  show ?thesis
  proof (cases "?r > 180")
    case True
    then have d: "angle_distance a b = 360 - ?r" by (simp add: angle_distance_def)
    show ?thesis
    proof (cases "0 \<le> a - b")
      case True
      have "angle_distance a b = \<bar>a - b - 360 * real_of_int (?m + 1)\<bar>"
        using d r rng True by simp
      then show ?thesis by blast
    next
      case False
      have "angle_distance a b = \<bar>a - b - 360 * real_of_int (- ?m - 1)\<bar>"
        using d r rng False by simp
      then show ?thesis by blast
    qed
  next
    case False
    then have d: "angle_distance a b = ?r" by (simp add: angle_distance_def)
    show ?thesis
    proof (cases "0 \<le> a - b")
      case True
      have "angle_distance a b = \<bar>a - b - 360 * real_of_int ?m\<bar>"
        using d r rng True by simp
      then show ?thesis by blast
    next
      case False
      have "angle_distance a b = \<bar>a - b - 360 * real_of_int (- ?m)\<bar>"
        using d r rng False by simp
      then show ?thesis by blast
    qed
  qed
qed

lemma abs_shift_lower:
  fixes r :: real and j :: int
  assumes "0 \<le> r" "r < 360"
  shows "(if r > 180 then 360 - r else r) \<le> \<bar>r + 360 * real_of_int j\<bar>"
proof (cases "0 \<le> j")
  case True
  then have "0 \<le> real_of_int j" by simp
  then show ?thesis using assms by (auto simp: abs_if)
next
  case False
  then have "j \<le> - 1" by simp
  then have "real_of_int j \<le> - 1" by linarith
  then show ?thesis using assms by (auto simp: abs_if)
qed

lemma angle_distance_le: "angle_distance a b \<le> \<bar>a - b - 360 * real_of_int k\<bar>"
proof -
  let ?x = "\<bar>a - b\<bar>"
  let ?m = "\<lfloor>?x / 360\<rfloor>"
  let ?r = "py_mod ?x 360"
  have r: "?x = ?r + 360 * real_of_int ?m" by (simp add: py_mod_def)
  have rng: "0 \<le> ?r" "?r < 360" using py_mod_range by auto
  have d: "angle_distance a b = (if ?r > 180 then 360 - ?r else ?r)"
    by (simp add: angle_distance_def Let_def)
  have e: "\<exists>j::int. \<bar>a - b - 360 * real_of_int k\<bar> = \<bar>?r + 360 * real_of_int j\<bar>"
  proof (cases "0 \<le> a - b")
    case True
    then have "a - b - 360 * real_of_int k = ?r + 360 * real_of_int (?m - k)"
      using r by simp
    then show ?thesis by metis
  next
    case False
    then have "- (a - b - 360 * real_of_int k) = ?r + 360 * real_of_int (?m + k)"
      using r by simp
    then have "\<bar>a - b - 360 * real_of_int k\<bar> = \<bar>?r + 360 * real_of_int (?m + k)\<bar>"
      by (metis abs_minus_cancel)
    then show ?thesis by metis
  qed
  then obtain j :: int where j: "\<bar>a - b - 360 * real_of_int k\<bar> = \<bar>?r + 360 * real_of_int j\<bar>"
    by blast
  show ?thesis unfolding d j by (rule abs_shift_lower [OF rng])
qed

lemma angle_distance_triangle:
  "angle_distance a b \<le> angle_distance a t + angle_distance b t"
proof -
  obtain k1 :: int where k1: "angle_distance a t = \<bar>a - t - 360 * real_of_int k1\<bar>"
    using angle_distance_repr by blast
  obtain k2 :: int where k2: "angle_distance t b = \<bar>t - b - 360 * real_of_int k2\<bar>"
    using angle_distance_repr by blast
  have "angle_distance a b \<le> \<bar>a - b - 360 * real_of_int (k1 + k2)\<bar>"
    by (rule angle_distance_le)
  also have "\<dots> = \<bar>(a - t - 360 * real_of_int k1) + (t - b - 360 * real_of_int k2)\<bar>"
    by (simp add: algebra_simps)
  also have "\<dots> \<le> angle_distance a t + angle_distance t b"
    unfolding k1 k2 by (rule abs_triangle_ineq)
  finally show ?thesis by (simp add: angle_distance_sym [of b t])
qed

lemma angles_71:
  "the (SPEAKER_ANGLES_71 0) = 30" "the (SPEAKER_ANGLES_71 (Suc 0)) = - 30"
  "the (SPEAKER_ANGLES_71 2) = 0" "the (SPEAKER_ANGLES_71 3) = 0"
  "the (SPEAKER_ANGLES_71 4) = 110" "the (SPEAKER_ANGLES_71 5) = - 110"
  "the (SPEAKER_ANGLES_71 6) = 150" "the (SPEAKER_ANGLES_71 7) = - 150"
  by (simp_all add: SPEAKER_ANGLES_71_def)

lemma angles_51:
  "the (SPEAKER_ANGLES_51 0) = 30" "the (SPEAKER_ANGLES_51 (Suc 0)) = - 30"
  "the (SPEAKER_ANGLES_51 2) = 0" "the (SPEAKER_ANGLES_51 3) = 0"
  "the (SPEAKER_ANGLES_51 4) = 110" "the (SPEAKER_ANGLES_51 5) = - 110"
  by (simp_all add: SPEAKER_ANGLES_51_def)

lemma table_separation:
  assumes "a \<in> set (spatial_channels (SurroundRotator fmt))"
    and "b \<in> set (spatial_channels (SurroundRotator fmt))" and "a \<noteq> b"
  shows "30 \<le> angle_distance (real_of_int (the (SPEAKER_ANGLES (SurroundRotator fmt) a)))
                              (real_of_int (the (SPEAKER_ANGLES (SurroundRotator fmt) b)))"
proof (cases "fmt = ''5.1''")
  case True
  then have t: "SPEAKER_ANGLES (SurroundRotator fmt) = SPEAKER_ANGLES_51"
    by (simp add: SurroundRotator_def)
  have A: "a = 0 \<or> a = Suc 0 \<or> a = 2 \<or> a = 4 \<or> a = 5"
    and B: "b = 0 \<or> b = Suc 0 \<or> b = 2 \<or> b = 4 \<or> b = 5"
    using assms True by (simp_all add: spatial_channels_rotator)
  from A B assms(3) show ?thesis unfolding t
    by (elim disjE; simp add: angles_51 angle_distance_def py_mod_def)
next
  case False
  then have t: "SPEAKER_ANGLES (SurroundRotator fmt) = SPEAKER_ANGLES_71"
    by (simp add: SurroundRotator_def)
  have A: "a = 0 \<or> a = Suc 0 \<or> a = 2 \<or> a = 4 \<or> a = 5 \<or> a = 6 \<or> a = 7"
    and B: "b = 0 \<or> b = Suc 0 \<or> b = 2 \<or> b = 4 \<or> b = 5 \<or> b = 6 \<or> b = 7"
    using assms False by (simp_all add: spatial_channels_rotator)
  from A B assms(3) show ?thesis unfolding t
    by (elim disjE; simp add: angles_71 angle_distance_def py_mod_def)
qed

lemma two_closest_sum:
  assumes "two_closest (SurroundRotator fmt) target first second"
  shows "30 \<le> speaker_distance (SurroundRotator fmt) target first
            + speaker_distance (SurroundRotator fmt) target second"
proof -
  let ?R = "SurroundRotator fmt"
  have m: "first \<in> set (spatial_channels ?R)" "second \<in> set (spatial_channels ?R)"
    "first \<noteq> second" using assms by (auto simp: two_closest_spatial)
  from table_separation [OF m]
  have "30 \<le> angle_distance (real_of_int (the (SPEAKER_ANGLES ?R first)))
                              (real_of_int (the (SPEAKER_ANGLES ?R second)))" .
  also have "\<dots> \<le> speaker_distance ?R target first + speaker_distance ?R target second"
    unfolding speaker_distance_def by (rule angle_distance_triangle)
  finally show ?thesis .
qed

text \<open>
  Claim C10. In both shipped tables (any format string other than "5.1" selects
  the 7.1 table) two distinct spatial speakers are at least 30 degrees apart; the
  angular distance is symmetric, non-negative and satisfies the triangle inequality;
  so for every target angle the two channels that \<open>_amplitude_pan\<close> selects have
  distances with \<open>d1 + d2 \<ge> 30\<close>: the branch \<open>total_dist < 0.1\<close> is never taken,
  the divisor of \<open>t = d1/(d1+d2)\<close> is at least 30, and the weights are always the
  cosine and sine.
\<close>

theorem pan_fallback_unreachable:
  "(\<forall>a\<in>set (spatial_channels (SurroundRotator fmt)).
      \<forall>b\<in>set (spatial_channels (SurroundRotator fmt)). a \<noteq> b \<longrightarrow>
        30 \<le> angle_distance (real_of_int (the (SPEAKER_ANGLES (SurroundRotator fmt) a)))
                              (real_of_int (the (SPEAKER_ANGLES (SurroundRotator fmt) b))))
   \<and> (\<forall>x y z. angle_distance x y = angle_distance y x \<and> 0 \<le> angle_distance x y
          \<and> angle_distance x y \<le> angle_distance x z + angle_distance y z)
   \<and> (\<forall>target. \<exists>first second.
          closest_channels (SurroundRotator fmt) target = Inr [first, second] \<and>
          30 \<le> speaker_distance (SurroundRotator fmt) target first
                + speaker_distance (SurroundRotator fmt) target second \<and>
          \<not> (speaker_distance (SurroundRotator fmt) target first
                + speaker_distance (SurroundRotator fmt) target second < 0.1) \<and>
          pan_weights (speaker_distance (SurroundRotator fmt) target first)
                      (speaker_distance (SurroundRotator fmt) target second) =
            (cos (speaker_distance (SurroundRotator fmt) target first /
                   (speaker_distance (SurroundRotator fmt) target first
                     + speaker_distance (SurroundRotator fmt) target second) * pi / 2),
             sin (speaker_distance (SurroundRotator fmt) target first /
                   (speaker_distance (SurroundRotator fmt) target first
                     + speaker_distance (SurroundRotator fmt) target second) * pi / 2)))"
proof (intro conjI allI ballI impI)
  fix a b
  assume "a \<in> set (spatial_channels (SurroundRotator fmt))"
    "b \<in> set (spatial_channels (SurroundRotator fmt))" "a \<noteq> b"
  then show "30 \<le> angle_distance (real_of_int (the (SPEAKER_ANGLES (SurroundRotator fmt) a)))
                              (real_of_int (the (SPEAKER_ANGLES (SurroundRotator fmt) b)))"
    by (rule table_separation)
next
  fix x y :: real
  show "angle_distance x y = angle_distance y x" by (rule angle_distance_sym)
  show "0 \<le> angle_distance x y" using angle_distance_range by blast
next
  fix x y z :: real
  show "angle_distance x y \<le> angle_distance x z + angle_distance y z"
    by (rule angle_distance_triangle)
next
  fix target
  let ?R = "SurroundRotator fmt"
  from closest_channels_rotator obtain first second where
    cc: "closest_channels ?R target = Inr [first, second]"
    and tc: "two_closest ?R target first second" by blast
  have s: "30 \<le> speaker_distance ?R target first + speaker_distance ?R target second"
    using two_closest_sum [OF tc] .
  then have n: "\<not> (speaker_distance ?R target first + speaker_distance ?R target second < 0.1)"
    by simp
  have "pan_weights (speaker_distance ?R target first) (speaker_distance ?R target second) =
            (cos (speaker_distance ?R target first /
                   (speaker_distance ?R target first + speaker_distance ?R target second) * pi / 2),
             sin (speaker_distance ?R target first /
                   (speaker_distance ?R target first + speaker_distance ?R target second) * pi / 2))"
    using n by (simp add: pan_weights_spec)
  with cc s n show "\<exists>first second.
          closest_channels ?R target = Inr [first, second] \<and>
          30 \<le> speaker_distance ?R target first + speaker_distance ?R target second \<and>
          \<not> (speaker_distance ?R target first + speaker_distance ?R target second < 0.1) \<and>
          pan_weights (speaker_distance ?R target first) (speaker_distance ?R target second) =
            (cos (speaker_distance ?R target first /
                   (speaker_distance ?R target first + speaker_distance ?R target second) * pi / 2),
             sin (speaker_distance ?R target first /
                   (speaker_distance ?R target first + speaker_distance ?R target second) * pi / 2))"
    by blast
qed

text \<open>
  C10 at the 7.1 table: front left and left back are 120 degrees apart, and the
  target 15 degrees, halfway between centre and front left, gives the two distances
  15 and 15: the bound 30 is attained.
\<close>

theorem pan_fallback_unreachable_witness:
  "(0::nat) \<in> set (spatial_channels (SurroundRotator ''7.1''))
   \<and> (6::nat) \<in> set (spatial_channels (SurroundRotator ''7.1'')) \<and> (0::nat) \<noteq> 6
   \<and> 30 \<le> angle_distance (real_of_int (the (SPEAKER_ANGLES (SurroundRotator ''7.1'') 0)))
                           (real_of_int (the (SPEAKER_ANGLES (SurroundRotator ''7.1'') 6)))
   \<and> (\<exists>first second.
          closest_channels (SurroundRotator ''7.1'') 15 = Inr [first, second] \<and>
          30 \<le> speaker_distance (SurroundRotator ''7.1'') 15 first
                + speaker_distance (SurroundRotator ''7.1'') 15 second \<and>
          \<not> (speaker_distance (SurroundRotator ''7.1'') 15 first
                + speaker_distance (SurroundRotator ''7.1'') 15 second < 0.1))
   \<and> speaker_distance (SurroundRotator ''7.1'') 15 0
        + speaker_distance (SurroundRotator ''7.1'') 15 2 = 30"
proof -
  let ?R = "SurroundRotator ''7.1''"
  have m: "(0::nat) \<in> set (spatial_channels ?R)" "(6::nat) \<in> set (spatial_channels ?R)"
    "(0::nat) \<noteq> 6"
    by (simp_all add: spatial_channels_rotator)
  note main = pan_fallback_unreachable [of "''7.1''"]
  from main m have sep: "30 \<le> angle_distance (real_of_int (the (SPEAKER_ANGLES ?R 0)))
                           (real_of_int (the (SPEAKER_ANGLES ?R 6)))"
    by blast
  from main have cl: "\<exists>first second.
          closest_channels ?R 15 = Inr [first, second] \<and>
          30 \<le> speaker_distance ?R 15 first + speaker_distance ?R 15 second \<and>
          \<not> (speaker_distance ?R 15 first + speaker_distance ?R 15 second < 0.1)"
    by blast
  have ev: "speaker_distance ?R 15 0 + speaker_distance ?R 15 2 = 30"
    by (simp add: speaker_distance_def SurroundRotator_def angles_71 angle_distance_def py_mod_def)
  show ?thesis using m sep cl ev by blast
qed

lemma normalize_angle_id:
  assumes "- 180 < x" "x \<le> 180"
  shows "normalize_angle x = x"
proof (cases "0 \<le> x")
  case True
  then have "\<lfloor>x / 360\<rfloor> = 0" using assms by (simp add: floor_eq_iff)
  then show ?thesis using True assms by (simp add: normalize_angle_def py_mod_def)
next
  case False
  then have "\<lfloor>x / 360\<rfloor> = - 1" using assms by (simp add: floor_eq_iff)
  then show ?thesis using False assms by (simp add: normalize_angle_def py_mod_def)
qed

lemma angle_distance_self: "angle_distance x x = 0"
  by (simp add: angle_distance_def py_mod_def)

lemma table_angle_range:
  assumes "SPEAKER_ANGLES (SurroundRotator fmt) c = Some a"
  shows "- 180 < real_of_int a \<and> real_of_int a \<le> 180"
  using assms
  by (auto simp: SurroundRotator_def SPEAKER_ANGLES_51_def SPEAKER_ANGLES_71_def
      split: if_splits)

lemma map2_first: "length xs = length ys \<Longrightarrow> map2 (\<lambda>x y. x) xs ys = xs"
  by (induction xs ys rule: list_induct2) simp_all

lemma rotate_channel_zero:
  assumes wf: "wf_frame f" and wide: "num_channels (SurroundRotator fmt) \<le> length (columns f)"
    and c: "c < num_channels (SurroundRotator fmt)"
  shows "rotate_channel (SurroundRotator fmt) f 0 c = Inr (columns f ! c)"
proof (cases "c = 3")
  case True
  then show ?thesis using wide c by (simp add: rotate_channel_lfe column_Inr)
next
  case False
  let ?R = "SurroundRotator fmt"
  obtain a where a: "SPEAKER_ANGLES ?R c = Some a"
    using speaker_angles_defined [OF c] by blast
  have t: "normalize_angle (real_of_int a + 0) = real_of_int a"
    using table_angle_range [OF a] by (simp add: normalize_angle_id)
  let ?d = "speaker_distance ?R (real_of_int a)"
  from rotate_channel_pans [OF wf wide a False, of 0] obtain first second where
    tc: "two_closest ?R (real_of_int a) first second" and
    rc: "rotate_channel ?R f 0 c =
       Inr (map2 (\<lambda>x y. x * fst (pan_weights (?d first) (?d second))
                       + y * snd (pan_weights (?d first) (?d second)))
            (columns f ! first) (columns f ! second))"
    unfolding t by blast
  have cin: "c \<in> set (spatial_channels ?R)"
    using c False by (simp add: spatial_channels_def)
  have dc: "?d c = 0" using a by (simp add: speaker_distance_def angle_distance_self)
  have fin: "first \<in> set (spatial_channels ?R)" and sin: "second \<in> set (spatial_channels ?R)"
    using tc by (auto simp: two_closest_spatial)
  have "ranks_before ?d first c" using tc cin by (auto simp: two_closest_spatial)
  moreover have "0 \<le> ?d first"
    using angle_distance_range by (simp add: speaker_distance_def)
  ultimately have d1: "?d first = 0" using dc by (auto simp: ranks_before_def)
  have first: "first = c"
  proof (rule ccontr)
    assume "first \<noteq> c"
    from table_separation [OF fin cin this] a d1 show False
      by (simp add: speaker_distance_def)
  qed
  have "30 \<le> ?d first + ?d second" using two_closest_sum [OF tc] .
  then have w: "pan_weights (?d first) (?d second) = (1, 0)"
    using d1 by (simp add: pan_weights_spec)
  have "second < length (columns f)" "c < length (columns f)"
    using sin spatial_in_range wide c by fastforce+
  then have "length (columns f ! c) = length (columns f ! second)"
    using wf by (simp add: wf_frame_length)
  then show ?thesis using rc w first by (simp add: map2_first)
qed

lemma frame_eqI:
  fixes g h :: frame
  assumes "nsamples g = nsamples h" "columns g = columns h"
  shows "g = h"
  using assms by simp

text \<open>
  Claim C3. For every format and every well-formed frame with at least the channels
  of the format, \<open>rotate\<close> with yaw 0 returns the input frame (its first 6 or 8
  channels): the LFE and every spatial channel are unchanged, each spatial channel
  being the unique closest match of its own angle. In the real-number model the
  equality is exact.
\<close>

theorem rotate_zero_identity:
  assumes wf: "wf_frame f"
    and wide: "num_channels (SurroundRotator fmt) \<le> length (columns f)"
  shows "SurroundRotator_rotate (SurroundRotator fmt) f 0 =
           Inr \<lparr>nsamples = nsamples f,
                columns = take (num_channels (SurroundRotator fmt)) (columns f)\<rparr>"
proof -
  let ?R = "SurroundRotator fmt"
  obtain res where res: "SurroundRotator_rotate ?R f 0 = Inr res"
    using rotate_total [OF wf wide] by blast
  note rr = rotate_result [OF res]
  have cols: "columns res ! c = columns f ! c" if "c < num_channels ?R" for c
  proof -
    from rr that obtain s where s: "rotate_channel ?R f 0 c = Inr s"
      "columns res ! c = stored_column (nsamples f) s" by blast
    have "s = columns f ! c" using s(1) rotate_channel_zero [OF wf wide that] by simp
    moreover have "length (columns f ! c) = nsamples f"
      using that wide wf by (simp add: wf_frame_length)
    ultimately show ?thesis using s(2) by (simp add: stored_column_def)
  qed
  have "columns res = take (num_channels ?R) (columns f)"
    using rr wide cols by (intro nth_equalityI) simp_all
  then have "res = \<lparr>nsamples = nsamples f, columns = take (num_channels ?R) (columns f)\<rparr>"
    using rr by (intro frame_eqI) simp_all
  then show ?thesis using res by simp
qed

text \<open>C3 at a one-sample 5.1 frame: the frame comes back as it went in.\<close>

theorem rotate_zero_identity_witness:
  "wf_frame \<lparr>nsamples = 1, columns = [[1], [2], [3], [4], [5], [6]]\<rparr>
   \<and> num_channels (SurroundRotator ''5.1'')
        \<le> length (columns \<lparr>nsamples = 1, columns = [[1], [2], [3], [4], [5], [6]]\<rparr>)
   \<and> SurroundRotator_rotate (SurroundRotator ''5.1'')
         \<lparr>nsamples = 1, columns = [[1], [2], [3], [4], [5], [6]]\<rparr> 0
       = Inr \<lparr>nsamples = 1, columns = [[1], [2], [3], [4], [5], [6]]\<rparr>"
proof -
  let ?f = "\<lparr>nsamples = 1, columns = [[1], [2], [3], [4], [5], [6 :: real]]\<rparr>"
  have wf: "wf_frame ?f" by (simp add: wf_frame_def)
  have wide: "num_channels (SurroundRotator ''5.1'') \<le> length (columns ?f)"
    by (simp add: num_channels_cases)
  from rotate_zero_identity [OF wf wide] wf wide
  show ?thesis by (simp add: num_channels_cases)
qed

lemma getitem_71:
  "getitem SPEAKER_ANGLES_71 0 = Inr 30"
  "getitem SPEAKER_ANGLES_71 (Suc 0) = Inr (- 30)"
  "getitem SPEAKER_ANGLES_71 2 = Inr 0"
  "getitem SPEAKER_ANGLES_71 3 = Inr 0"
  "getitem SPEAKER_ANGLES_71 4 = Inr 110"
  "getitem SPEAKER_ANGLES_71 5 = Inr (- 110)"
  "getitem SPEAKER_ANGLES_71 6 = Inr 150"
  "getitem SPEAKER_ANGLES_71 7 = Inr (- 150)"
  by (simp_all add: getitem_def SPEAKER_ANGLES_71_def)

lemma rotator_71:
  "num_channels (SurroundRotator ''7.1'') = 8"
  "SPEAKER_ANGLES (SurroundRotator ''7.1'') = SPEAKER_ANGLES_71"
  "spatial_channels (SurroundRotator ''7.1'') = [0, 1, 2, 4, 5, 6, 7]"
  by (simp_all add: spatial_channels_rotator) (simp_all add: SurroundRotator_def)

lemma closest_71_at:
  "closest_channels (SurroundRotator ''7.1'') 180 = Inr [6, 7]"
  "closest_channels (SurroundRotator ''7.1'') 150 = Inr [6, 4]"
  "closest_channels (SurroundRotator ''7.1'') (- 150) = Inr [7, 5]"
  "closest_channels (SurroundRotator ''7.1'') 70 = Inr [0, 4]"
  "closest_channels (SurroundRotator ''7.1'') (- 70) = Inr [1, 5]"
  "closest_channels (SurroundRotator ''7.1'') 30 = Inr [0, 2]"
  "closest_channels (SurroundRotator ''7.1'') (- 30) = Inr [1, 2]"
  by (simp_all add: closest_channels_def rotator_71 getitem_71 angle_distance_def py_mod_def)

lemma rotate_by_channels:
  assumes wf: "wf_frame f"
    and wide: "num_channels (SurroundRotator fmt) \<le> length (columns f)"
    and ch: "\<And>c. c < num_channels (SurroundRotator fmt) \<Longrightarrow>
               rotate_channel (SurroundRotator fmt) f yaw c = Inr (g c)"
  shows "SurroundRotator_rotate (SurroundRotator fmt) f yaw =
           Inr \<lparr>nsamples = nsamples f,
                columns = map g [0..<num_channels (SurroundRotator fmt)]\<rparr>"
proof -
  let ?R = "SurroundRotator fmt"
  obtain res where res: "SurroundRotator_rotate ?R f yaw = Inr res"
    using rotate_total [OF wf wide] by blast
  note rr = rotate_result [OF res]
  have cols: "columns res ! c = g c" if "c < num_channels ?R" for c
  proof -
    from rr that obtain s where s: "rotate_channel ?R f yaw c = Inr s"
      "columns res ! c = stored_column (nsamples f) s" by blast
    from rotate_channel_total [OF wf wide that, of yaw] s(1)
    have "length s = nsamples f" by simp
    then show ?thesis using s ch [OF that] by (simp add: stored_column_def)
  qed
  have "columns res = map g [0..<num_channels ?R]"
    using rr cols by (intro nth_equalityI) simp_all
  then have "res = \<lparr>nsamples = nsamples f, columns = map g [0..<num_channels ?R]\<rparr>"
    using rr by (intro frame_eqI) simp_all
  then show ?thesis using res by simp
qed

lemma below_8: "c < 8 \<Longrightarrow>
  c = 0 \<or> c = Suc 0 \<or> c = 2 \<or> c = 3 \<or> c = 4 \<or> c = 5 \<or> c = 6 \<or> c = (7::nat)"
  by arith

lemma rotate_71_half_turn:
  "SurroundRotator_rotate (SurroundRotator ''7.1'')
     \<lparr>nsamples = 1, columns = [[0], [0], [1], [0], [0], [0], [0], [0]]\<rparr> 180
   = Inr \<lparr>nsamples = 1, columns = [[0], [0], [0], [0], [0], [0], [0], [0]]\<rparr>"
proof -
  let ?f = "\<lparr>nsamples = 1, columns = [[0], [0], [1], [0], [0], [0], [0], [0 :: real]]\<rparr>"
  have wf: "wf_frame ?f" by (simp add: wf_frame_def)
  have wide: "num_channels (SurroundRotator ''7.1'') \<le> length (columns ?f)"
    by (simp add: rotator_71)
  have ch: "rotate_channel (SurroundRotator ''7.1'') ?f 180 c = Inr [0]"
    if "c < num_channels (SurroundRotator ''7.1'')" for c
    using below_8 [OF that [unfolded rotator_71]]
    by (elim disjE; simp add: rotate_channel_def rotator_71 getitem_71 py_mod_def
          amplitude_pan_def closest_71_at column_def split_beta
          pan_weights_spec angle_distance_def)
  show ?thesis using rotate_by_channels [OF wf wide ch]
    by (simp add: rotator_71 upt_rec)
qed

lemma rotate_71_half_turn_back:
  "SurroundRotator_rotate (SurroundRotator ''7.1'')
     \<lparr>nsamples = 1, columns = [[0], [0], [0], [0], [0], [0], [0], [0]]\<rparr> (- 180)
   = Inr \<lparr>nsamples = 1, columns = [[0], [0], [0], [0], [0], [0], [0], [0]]\<rparr>"
proof -
  let ?f = "\<lparr>nsamples = 1, columns = [[0], [0], [0], [0], [0], [0], [0], [0 :: real]]\<rparr>"
  have wf: "wf_frame ?f" by (simp add: wf_frame_def)
  have wide: "num_channels (SurroundRotator ''7.1'') \<le> length (columns ?f)"
    by (simp add: rotator_71)
  have ch: "rotate_channel (SurroundRotator ''7.1'') ?f (- 180) c = Inr [0]"
    if "c < num_channels (SurroundRotator ''7.1'')" for c
    using below_8 [OF that [unfolded rotator_71]]
    by (elim disjE; simp add: rotate_channel_def rotator_71 getitem_71 py_mod_def
          amplitude_pan_def closest_71_at column_def split_beta
          pan_weights_spec angle_distance_def)
  show ?thesis using rotate_by_channels [OF wf wide ch]
    by (simp add: rotator_71 upt_rec)
qed

text \<open>
  Claim C7 fails. A 7.1 frame of one sample with the centre channel at 1 and all
  other channels at 0 is turned by 180 degrees into silence (the centre is the
  second choice of the outputs that look at 30 and -30 degrees, with weight 0), and
  turning back by -180 degrees leaves silence: the centre sample is 0 instead of 1.
\<close>

theorem rotate_round_trip_counterexample:
  "\<exists>mid back.
     SurroundRotator_rotate (SurroundRotator ''7.1'')
       \<lparr>nsamples = 1, columns = [[0], [0], [1], [0], [0], [0], [0], [0]]\<rparr> 180 = Inr mid \<and>
     SurroundRotator_rotate (SurroundRotator ''7.1'') mid (- 180) = Inr back \<and>
     \<not> \<bar>columns back ! 2 ! 0
          - columns \<lparr>nsamples = 1, columns = [[0], [0], [1], [0], [0], [0], [0], [0]]\<rparr> ! 2 ! 0\<bar>
         \<le> 1 / 10000"
  using rotate_71_half_turn rotate_71_half_turn_back by simp

lemma py_mod_period: "py_mod (x + 360 * real_of_int k) 360 = py_mod x 360"
proof -
  have "(x + 360 * real_of_int k) / 360 = x / 360 + real_of_int k" by simp
  then have "\<lfloor>(x + 360 * real_of_int k) / 360\<rfloor> = \<lfloor>x / 360\<rfloor> + k"
    by (simp only: floor_add_int)
  then show ?thesis by (simp add: py_mod_def algebra_simps)
qed

lemma rotate_channel_period:
  "rotate_channel self f (yaw + 360 * real_of_int k) c = rotate_channel self f yaw c"
proof -
  have h: "py_mod (real_of_int a + (yaw + 360 * real_of_int k)) 360
          = py_mod (real_of_int a + yaw) 360" for a
    using py_mod_period [of "real_of_int a + yaw" k] by (simp add: add.assoc)
  show ?thesis unfolding rotate_channel_def h ..
qed

lemma rotate_loop_period:
  "rotate_loop self f (yaw + 360 * real_of_int k) out cs = rotate_loop self f yaw out cs"
  by (induction cs arbitrary: out) (simp_all add: rotate_channel_period)

lemma rotate_period:
  "SurroundRotator_rotate self f (yaw + 360 * real_of_int k) = SurroundRotator_rotate self f yaw"
  by (simp add: SurroundRotator_rotate_def rotate_loop_period)

lemma rotate_full_turns:
  assumes wf: "wf_frame f"
    and wide: "num_channels (SurroundRotator fmt) \<le> length (columns f)"
  shows "SurroundRotator_rotate (SurroundRotator fmt) f (360 * real_of_int k) =
           Inr \<lparr>nsamples = nsamples f,
                columns = take (num_channels (SurroundRotator fmt)) (columns f)\<rparr>"
proof -
  let ?R = "SurroundRotator fmt"
  have ch: "rotate_channel ?R f (360 * real_of_int k) c = Inr (columns f ! c)"
    if "c < num_channels ?R" for c
    using rotate_channel_period [of ?R f 0 k c] rotate_channel_zero [OF wf wide that]
    by simp
  have "map (\<lambda>c. columns f ! c) [0..<num_channels ?R] = take (num_channels ?R) (columns f)"
    using wide by (intro nth_equalityI) simp_all
  then show ?thesis using rotate_by_channels [OF wf wide ch] by simp
qed

lemma wf_frame_take:
  "wf_frame f \<Longrightarrow> wf_frame \<lparr>nsamples = nsamples f, columns = take n (columns f)\<rparr>"
  by (auto simp: wf_frame_def list_all_iff dest: in_set_takeD)

text \<open>
  Claim C7 as amended. When the yaw is a whole number of full turns,
  \<open>theta = 360 k\<close> (in particular \<open>theta = 0\<close>), rotating by \<open>theta\<close> and then by
  \<open>- theta\<close> restores every channel of the frame, exactly in the real-number model.
  For other yaws the round trip is not the identity in general.
\<close>

theorem rotate_round_trip_full_turns:
  assumes wf: "wf_frame f"
    and wide: "num_channels (SurroundRotator fmt) \<le> length (columns f)"
  shows "\<exists>mid back.
     SurroundRotator_rotate (SurroundRotator fmt) f (360 * real_of_int k) = Inr mid \<and>
     SurroundRotator_rotate (SurroundRotator fmt) mid (- (360 * real_of_int k)) = Inr back \<and>
     (\<forall>c<num_channels (SurroundRotator fmt). columns back ! c = columns f ! c)"
proof -
  let ?R = "SurroundRotator fmt"
  let ?mid = "\<lparr>nsamples = nsamples f, columns = take (num_channels ?R) (columns f)\<rparr>"
  have fwd: "SurroundRotator_rotate ?R f (360 * real_of_int k) = Inr ?mid"
    by (rule rotate_full_turns [OF wf wide])
  have wf': "wf_frame ?mid" by (rule wf_frame_take [OF wf])
  have wide': "num_channels ?R \<le> length (columns ?mid)" using wide by simp
  have "SurroundRotator_rotate ?R ?mid (360 * real_of_int (- k)) = Inr ?mid"
    using rotate_full_turns [OF wf' wide', of "- k"] by simp
  then have bwd: "SurroundRotator_rotate ?R ?mid (- (360 * real_of_int k)) = Inr ?mid"
    by simp
  have "\<forall>c<num_channels ?R. columns ?mid ! c = columns f ! c" by simp
  with fwd bwd show ?thesis by blast
qed

text \<open>The amended C7 at a one-sample 5.1 frame and one full turn.\<close>

theorem rotate_round_trip_full_turns_witness:
  "wf_frame \<lparr>nsamples = 1, columns = [[1], [2], [3], [4], [5], [6]]\<rparr>
   \<and> num_channels (SurroundRotator ''5.1'')
        \<le> length (columns \<lparr>nsamples = 1, columns = [[1], [2], [3], [4], [5], [6]]\<rparr>)
   \<and> (\<exists>mid back.
     SurroundRotator_rotate (SurroundRotator ''5.1'')
        \<lparr>nsamples = 1, columns = [[1], [2], [3], [4], [5], [6]]\<rparr> 360 = Inr mid \<and>
     SurroundRotator_rotate (SurroundRotator ''5.1'') mid (- 360) = Inr back \<and>
     columns back ! 0 = [1] \<and> columns back ! 5 = [6])"
proof -
  let ?f = "\<lparr>nsamples = 1, columns = [[1], [2], [3], [4], [5], [6 :: real]]\<rparr>"
  have wf: "wf_frame ?f" by (simp add: wf_frame_def)
  have wide: "num_channels (SurroundRotator ''5.1'') \<le> length (columns ?f)"
    by (simp add: num_channels_cases)
  from rotate_round_trip_full_turns [OF wf wide, of 1]
  obtain m1 m2 where
    m: "SurroundRotator_rotate (SurroundRotator ''5.1'') ?f 360 = Inr m1"
    and b: "SurroundRotator_rotate (SurroundRotator ''5.1'') m1 (- 360) = Inr m2"
    and c: "\<forall>c<num_channels (SurroundRotator ''5.1''). columns m2 ! c = columns ?f ! c"
    by auto
  from c have "columns m2 ! 0 = [1]" "columns m2 ! 5 = [6]"
    by (simp_all add: num_channels_cases)
  with wf wide m b show ?thesis by blast
qed

lemma two_closest_unique:
  assumes "two_closest self t a b" "two_closest self t a' b'"
  shows "a = a' \<and> b = b'"
proof -
  let ?d = "speaker_distance self t"
  have anti: "ranks_before ?d x y \<Longrightarrow> ranks_before ?d y x \<Longrightarrow> x = y" for x y
    by (auto simp: ranks_before_def)
  have "ranks_before ?d a a'" "ranks_before ?d a' a"
    using assms by (auto simp: two_closest_spatial)
  then have a: "a = a'" by (rule anti)
  have "ranks_before ?d b b'" "ranks_before ?d b' b"
    using assms a by (auto simp: two_closest_spatial)
  then have "b = b'" by (rule anti)
  with a show ?thesis by simp
qed

lemma two_closest_71_at_60: "two_closest (SurroundRotator ''7.1'') 60 0 4"
  by (simp add: two_closest_spatial rotator_71 ranks_before_def speaker_distance_def angles_71
      angle_distance_def py_mod_def)

text \<open>
  C1 at the front left output of a one-sample 7.1 frame turned by 30 degrees: the
  target is 60 degrees, the two closest speakers are front left (30 degrees away)
  and left surround (50 degrees away), \<open>t = 3/8\<close>, and the output sample is
  \<open>cos(3 pi/16) L + sin(3 pi/16) LS\<close>.
\<close>

theorem rotate_pans_two_closest_witness:
  "wf_frame \<lparr>nsamples = 1, columns = [[1], [0], [0], [0], [5], [0], [0], [0]]\<rparr>
   \<and> num_channels (SurroundRotator ''7.1'')
        \<le> length (columns \<lparr>nsamples = 1, columns = [[1], [0], [0], [0], [5], [0], [0], [0]]\<rparr>)
   \<and> (0::nat) < num_channels (SurroundRotator ''7.1'') \<and> (0::nat) \<noteq> 3
   \<and> (\<exists>rotated.
         SurroundRotator_rotate (SurroundRotator ''7.1'')
           \<lparr>nsamples = 1, columns = [[1], [0], [0], [0], [5], [0], [0], [0]]\<rparr> 30 = Inr rotated
         \<and> columns rotated ! 0 = [cos (3 * pi / 16) * 1 + sin (3 * pi / 16) * 5])"
proof -
  let ?R = "SurroundRotator ''7.1''"
  let ?f = "\<lparr>nsamples = 1, columns = [[1], [0], [0], [0], [5], [0], [0], [0 :: real]]\<rparr>"
  have wf: "wf_frame ?f" by (simp add: wf_frame_def)
  have wide: "num_channels ?R \<le> length (columns ?f)"
    by (simp add: num_channels_cases)
  have out: "(0::nat) < num_channels ?R" "(0::nat) \<noteq> 3"
    by (simp_all add: num_channels_cases)
  from rotate_pans_two_closest [OF wf wide out, of 30]
  obtain rotated a target first second and k :: int where
    rot: "SurroundRotator_rotate ?R ?f 30 = Inr rotated"
    and a: "SPEAKER_ANGLES ?R 0 = Some a"
    and rng: "- 180 < target" "target \<le> 180"
    and k: "target = real_of_int a + 30 + 360 * real_of_int k"
    and tc: "two_closest ?R target first second"
    and col: "(let d1 = speaker_distance ?R target first;
          d2 = speaker_distance ?R target second;
          t = d1 / (d1 + d2);
          w1 = (if d1 + d2 < 0.1 then 1 else cos (t * pi / 2));
          w2 = (if d1 + d2 < 0.1 then 0 else sin (t * pi / 2))
      in columns rotated ! 0 =
           map2 (\<lambda>x y. w1 * x + w2 * y) (columns ?f ! first) (columns ?f ! second))"
    by blast
  have a30: "a = 30" using a by (simp add: rotator_71 SPEAKER_ANGLES_71_def)
  have "- 1 < real_of_int k" "real_of_int k < 1" using rng k a30 by simp_all
  then have "k = 0" by linarith
  then have t: "target = 60" using k a30 by simp
  have fs: "first = 0" "second = 4"
    using two_closest_unique [OF tc [unfolded t] two_closest_71_at_60] by simp_all
  have d: "speaker_distance ?R 60 0 = 30" "speaker_distance ?R 60 4 = 50"
    by (simp_all add: speaker_distance_def rotator_71 angles_71 angle_distance_def py_mod_def)
  have "columns rotated ! 0 = [cos (3 * pi / 16) * 1 + sin (3 * pi / 16) * 5]"
    using col unfolding t fs d Let_def by simp
  with rot wf wide out show ?thesis by blast
qed

section \<open>The claims about StereoRotator\<close>

lemma stereo_gains_eq:
  "stereo_gains yaw_degrees =
     (let y = normalize_angle yaw_degrees;
          volume = (if \<bar>y\<bar> > 90 then 1 - (\<bar>y\<bar> - 90) / 90 * 0.8 else 1);
          pan_yaw = (if \<bar>y\<bar> > 90 then (if y < 0 then - (180 - \<bar>y\<bar>) else 180 - \<bar>y\<bar>) else y);
          pan = max (- 1) (min 1 (- pan_yaw / 90))
      in (volume, pan_yaw, cos (pan * pi / 4 - pi / 4) * volume,
          cos (pan * pi / 4 + pi / 4) * volume))"
  by (simp add: stereo_gains_def normalize_angle_def Let_def)

lemma stereo_volume_eq:
  "stereo_volume yaw_degrees =
     (if \<bar>normalize_angle yaw_degrees\<bar> \<le> 90 then 1
      else 1 - 0.8 * (\<bar>normalize_angle yaw_degrees\<bar> - 90) / 90)"
  by (simp add: stereo_volume_def stereo_gains_eq Let_def)

lemma stereo_pan_yaw_eq:
  "stereo_pan_yaw yaw_degrees =
     (let y = normalize_angle yaw_degrees
      in if \<bar>y\<bar> > 90 then (if y < 0 then - (180 - \<bar>y\<bar>) else 180 - \<bar>y\<bar>) else y)"
  by (simp add: stereo_pan_yaw_def stereo_gains_eq Let_def)

lemma stereo_gain_eqs:
  "stereo_left_gain yaw_degrees =
     cos (max (- 1) (min 1 (- stereo_pan_yaw yaw_degrees / 90)) * pi / 4 - pi / 4)
       * stereo_volume yaw_degrees"
  "stereo_right_gain yaw_degrees =
     cos (max (- 1) (min 1 (- stereo_pan_yaw yaw_degrees / 90)) * pi / 4 + pi / 4)
       * stereo_volume yaw_degrees"
  by (simp_all add: stereo_left_gain_def stereo_right_gain_def stereo_pan_yaw_def
      stereo_volume_def stereo_gains_eq Let_def)

lemma normalize_values:
  "normalize_angle 0 = 0" "normalize_angle 90 = 90" "normalize_angle 180 = 180"
  "normalize_angle (- 180) = 180" "normalize_angle (- 90) = - 90"
  by (simp_all add: normalize_angle_def py_mod_def)

lemma stereo_volume_floor: "0.2 \<le> stereo_volume y \<and> stereo_volume y \<le> 1"
proof -
  have "- 180 < normalize_angle y" "normalize_angle y \<le> 180"
    using normalize_angle_spec [of y] by auto
  then show ?thesis by (auto simp: stereo_volume_eq abs_if)
qed

lemma stereo_volume_decreasing:
  assumes "90 \<le> \<bar>normalize_angle y1\<bar>" "\<bar>normalize_angle y1\<bar> < \<bar>normalize_angle y2\<bar>"
  shows "stereo_volume y2 < stereo_volume y1"
  using assms by (auto simp: stereo_volume_eq)

lemma stereo_at_180:
  "stereo_volume 180 = 0.2" "stereo_volume (- 180) = 0.2"
  "stereo_pan_yaw 180 = 0" "stereo_pan_yaw (- 180) = 0"
  by (simp_all add: stereo_volume_eq stereo_pan_yaw_eq normalize_values)

lemma stereo_at_0: "stereo_left_gain 0 = stereo_right_gain 0"
  by (simp add: stereo_gain_eqs stereo_pan_yaw_eq normalize_values)

lemma stereo_centered_180: "stereo_left_gain 180 = stereo_right_gain 180"
   "stereo_left_gain (- 180) = stereo_right_gain (- 180)"
  by (simp_all add: stereo_gain_eqs stereo_at_180)

lemma stereo_gains_split:
  "stereo_gains y = (stereo_volume y, stereo_pan_yaw y, stereo_left_gain y, stereo_right_gain y)"
  by (simp add: stereo_volume_def stereo_pan_yaw_def stereo_left_gain_def stereo_right_gain_def)

lemma stereo_rotate_general:
  assumes wf: "wf_frame f" and two: "2 \<le> length (columns f)"
  shows "StereoRotator_rotate f y =
     Inr \<lparr>nsamples = nsamples f,
          columns =
            [map (\<lambda>m. m * stereo_left_gain y)
               (map2 (\<lambda>l r. (l + r) * 0.5) (columns f ! 0) (columns f ! 1)),
             map (\<lambda>m. m * stereo_right_gain y)
               (map2 (\<lambda>l r. (l + r) * 0.5) (columns f ! 0) (columns f ! 1))]\<rparr>"
proof -
  define mono where "mono = map2 (\<lambda>l r. (l + r) * 0.5) (columns f ! 0) (columns f ! 1)"
  have ne: "columns f \<noteq> []" "Suc 0 < length (columns f)" using two by auto
  have c: "column f 0 = Inr (columns f ! 0)" "column f 1 = Inr (columns f ! 1)"
    using ne by (simp_all add: column_def)
  have len: "length (columns f ! 0) = nsamples f" "length (columns f ! 1) = nsamples f"
    using wf two by (auto intro!: wf_frame_length)
  then have lm: "length mono = nsamples f" by (simp add: mono_def)
  have z: "zeros n 2 = \<lparr>nsamples = n, columns = [replicate n 0, replicate n 0]\<rparr>" for n
    by (simp add: zeros_def numeral_2_eq_2)
  show ?thesis
    unfolding StereoRotator_rotate_def Let_def c bind_err_simps stereo_gains_split
      prod.case mono_def [symmetric]
    by (simp add: set_column_exact z lm)
qed

text \<open>
  Claim C6. For every well-formed stereo frame and every yaw, with \<open>y\<close> the yaw
  normalised into the range from -180 (excluded) to 180 (included):
  \<open>StereoRotator.rotate\<close> returns the mono mix \<open>(L + R) / 2\<close> times
  \<open>cos(pan pi/4 - pi/4) volume\<close> on the left and times
  \<open>cos(pan pi/4 + pi/4) volume\<close> on the right, where \<open>pan\<close> is \<open>- pan_yaw / 90\<close>
  clamped to [-1, 1] and the volume is 1 when \<open>|y| \<le> 90\<close> and
  \<open>1 - 0.8 (|y| - 90) / 90\<close> when \<open>|y| > 90\<close>; the volume strictly decreases as
  \<open>|y|\<close> grows past 90, is never below its floor 0.2 and is 0.2 at yaw 180 and -180,
  where the mirrored \<open>pan_yaw\<close> is 0 and the two gains are equal; at yaw 0 the left
  and right gains are equal.
\<close>

theorem stereo_volume_law:
  assumes wf: "wf_frame f" and two: "2 \<le> length (columns f)"
  shows "StereoRotator_rotate f yaw =
       Inr \<lparr>nsamples = nsamples f,
            columns =
              [map (\<lambda>m. m * (cos (max (- 1) (min 1 (- stereo_pan_yaw yaw / 90)) * pi / 4
                                    - pi / 4) * stereo_volume yaw))
                 (map2 (\<lambda>l r. (l + r) * 0.5) (columns f ! 0) (columns f ! 1)),
               map (\<lambda>m. m * (cos (max (- 1) (min 1 (- stereo_pan_yaw yaw / 90)) * pi / 4
                                    + pi / 4) * stereo_volume yaw))
                 (map2 (\<lambda>l r. (l + r) * 0.5) (columns f ! 0) (columns f ! 1))]\<rparr>
   \<and> stereo_left_gain yaw =
        cos (max (- 1) (min 1 (- stereo_pan_yaw yaw / 90)) * pi / 4 - pi / 4)
          * stereo_volume yaw
   \<and> stereo_right_gain yaw =
        cos (max (- 1) (min 1 (- stereo_pan_yaw yaw / 90)) * pi / 4 + pi / 4)
          * stereo_volume yaw
   \<and> - 180 < normalize_angle yaw \<and> normalize_angle yaw \<le> 180
   \<and> stereo_volume yaw =
        (if \<bar>normalize_angle yaw\<bar> \<le> 90 then 1
         else 1 - 0.8 * (\<bar>normalize_angle yaw\<bar> - 90) / 90)
   \<and> (\<forall>y1 y2. 90 \<le> \<bar>normalize_angle y1\<bar> \<and> \<bar>normalize_angle y1\<bar> < \<bar>normalize_angle y2\<bar>
          \<longrightarrow> stereo_volume y2 < stereo_volume y1)
   \<and> 0.2 \<le> stereo_volume yaw
   \<and> stereo_volume 180 = 0.2 \<and> stereo_volume (- 180) = 0.2
   \<and> stereo_pan_yaw 180 = 0 \<and> stereo_pan_yaw (- 180) = 0
   \<and> stereo_left_gain 180 = stereo_right_gain 180
   \<and> stereo_left_gain (- 180) = stereo_right_gain (- 180)
   \<and> stereo_left_gain 0 = stereo_right_gain 0"
proof -
  have "StereoRotator_rotate f yaw =
       Inr \<lparr>nsamples = nsamples f,
            columns =
              [map (\<lambda>m. m * (cos (max (- 1) (min 1 (- stereo_pan_yaw yaw / 90)) * pi / 4
                                    - pi / 4) * stereo_volume yaw))
                 (map2 (\<lambda>l r. (l + r) * 0.5) (columns f ! 0) (columns f ! 1)),
               map (\<lambda>m. m * (cos (max (- 1) (min 1 (- stereo_pan_yaw yaw / 90)) * pi / 4
                                    + pi / 4) * stereo_volume yaw))
                 (map2 (\<lambda>l r. (l + r) * 0.5) (columns f ! 0) (columns f ! 1))]\<rparr>"
    using stereo_rotate_general [OF wf two, of yaw]
    unfolding stereo_gain_eqs [of yaw] .
  then show ?thesis
    using stereo_gain_eqs [of yaw]
      normalize_angle_spec [of yaw] stereo_volume_eq [of yaw] stereo_volume_decreasing
      stereo_volume_floor [of yaw] stereo_at_180 stereo_centered_180 stereo_at_0
    by blast
qed

text \<open>
  C6 at a two-sample frame with L = [1, 2] and R = [3, 4], turned by 180 degrees:
  the volume is 1/5, the pan is centred and both outputs are the mono mix [2, 3]
  times \<open>sqrt 2 / 10\<close>; between the yaws 100 and 170 the volume falls from 41/45
  to 13/45.
\<close>

theorem stereo_volume_law_witness:
  "wf_frame \<lparr>nsamples = 2, columns = [[1, 2], [3, 4]]\<rparr>
   \<and> 2 \<le> length (columns \<lparr>nsamples = 2, columns = [[1, 2], [3, 4]]\<rparr>)
   \<and> StereoRotator_rotate \<lparr>nsamples = 2, columns = [[1, 2], [3, 4]]\<rparr> 180 =
       Inr \<lparr>nsamples = 2,
            columns = [[2 * (sqrt 2 / 10), 3 * (sqrt 2 / 10)],
                       [2 * (sqrt 2 / 10), 3 * (sqrt 2 / 10)]]\<rparr>
   \<and> 90 \<le> \<bar>normalize_angle 100\<bar> \<and> \<bar>normalize_angle 100\<bar> < \<bar>normalize_angle 170\<bar>
   \<and> stereo_volume 170 < stereo_volume 100
   \<and> stereo_volume 100 = 41 / 45 \<and> stereo_volume 170 = 13 / 45"
proof -
  let ?f = "\<lparr>nsamples = 2, columns = [[1, 2], [3, 4 :: real]]\<rparr>"
  have wf: "wf_frame ?f" by (simp add: wf_frame_def)
  have two: "2 \<le> length (columns ?f)" by simp
  have n: "normalize_angle 100 = 100" "normalize_angle 170 = 170"
    by (simp_all add: normalize_angle_def py_mod_def)
  have h: "90 \<le> \<bar>normalize_angle 100\<bar> \<and> \<bar>normalize_angle 100\<bar> < \<bar>normalize_angle 170\<bar>"
    by (simp add: n)
  note law = stereo_volume_law [OF wf two, of 180]
  from law h have dec: "stereo_volume 170 < stereo_volume 100" by blast
  from law have "StereoRotator_rotate ?f 180 =
       Inr \<lparr>nsamples = nsamples ?f,
            columns =
              [map (\<lambda>m. m * (cos (max (- 1) (min 1 (- stereo_pan_yaw 180 / 90)) * pi / 4
                                    - pi / 4) * stereo_volume 180))
                 (map2 (\<lambda>l r. (l + r) * 0.5) (columns ?f ! 0) (columns ?f ! 1)),
               map (\<lambda>m. m * (cos (max (- 1) (min 1 (- stereo_pan_yaw 180 / 90)) * pi / 4
                                    + pi / 4) * stereo_volume 180))
                 (map2 (\<lambda>l r. (l + r) * 0.5) (columns ?f ! 0) (columns ?f ! 1))]\<rparr>"
    by blast
  then have rot: "StereoRotator_rotate ?f 180 =
       Inr \<lparr>nsamples = 2,
            columns = [[2 * (sqrt 2 / 10), 3 * (sqrt 2 / 10)],
                       [2 * (sqrt 2 / 10), 3 * (sqrt 2 / 10)]]\<rparr>"
    by (simp add: stereo_at_180 cos_45)
  have "stereo_volume 100 = 41 / 45" "stereo_volume 170 = 13 / 45"
    by (simp_all add: stereo_volume_eq n)
  then show ?thesis using wf two rot h dec by blast
qed

lemma stereo_at_90:
  "stereo_volume 90 = 1" "stereo_pan_yaw 90 = 90"
  "stereo_left_gain 90 = 0" "stereo_right_gain 90 = 1"
proof -
  show v: "stereo_volume 90 = 1" by (simp add: stereo_volume_eq normalize_values)
  show p: "stereo_pan_yaw 90 = 90" by (simp add: stereo_pan_yaw_eq normalize_values)
  have "- 1 * pi / 4 - pi / 4 = - (pi / 2)" by simp
  then show "stereo_left_gain 90 = 0"
    by (simp add: stereo_gain_eqs v p)
  show "stereo_right_gain 90 = 1"
    by (simp add: stereo_gain_eqs v p)
qed

lemma stereo_right_gain_le: "stereo_right_gain y \<le> 1"
proof -
  have v: "0 \<le> stereo_volume y" "stereo_volume y \<le> 1"
    using stereo_volume_floor [of y] by auto
  have "cos x * stereo_volume y \<le> 1" for x
  proof -
    have "cos x * stereo_volume y \<le> 1 * stereo_volume y"
      using v(1) by (intro mult_right_mono) simp_all
    then show ?thesis using v(2) by simp
  qed
  then show ?thesis by (simp add: stereo_gain_eqs)
qed

lemma cos_quarter_bound: "cos (- pi / 4) * 1 = sqrt 2 / 2 \<and> sqrt 2 / 2 < 3 / 4"
proof -
  have "sqrt 2 < sqrt ((3 / 2)\<^sup>2)" by (subst real_sqrt_less_iff) (simp add: power2_eq_square)
  then have "sqrt 2 < 3 / 2" by simp
  moreover have "cos (- pi / 4) = sqrt 2 / 2" by (simp add: cos_45)
  ultimately show ?thesis by simp
qed

lemma mono_mix: "map2 (\<lambda>l r. (l + r) * 0.5) s s = (s :: real list)"
  by (induction s) simp_all

lemma stereo_rotate_mono:
  "StereoRotator_rotate \<lparr>nsamples = length s, columns = [s, s]\<rparr> y =
     Inr \<lparr>nsamples = length s,
          columns = [map (\<lambda>m. m * stereo_left_gain y) s, map (\<lambda>m. m * stereo_right_gain y) s]\<rparr>"
proof -
  let ?f = "\<lparr>nsamples = length s, columns = [s, s]\<rparr>"
  have c: "column ?f 0 = Inr s" "column ?f 1 = Inr s" by (simp_all add: column_def)
  have z: "zeros (length s) 2 = \<lparr>nsamples = length s, columns = [replicate (length s) 0, replicate (length s) 0]\<rparr>"
    by (simp add: zeros_def numeral_2_eq_2)
  show ?thesis
    unfolding StereoRotator_rotate_def Let_def c bind_err_simps stereo_gains_split
      prod.case mono_mix
    by (simp add: set_column_def z)
qed

text \<open>
  Claim C8 fails in the value it gives for the right gain. At yaw 90 the pan is -1,
  the pan angle is \<open>- pi/4\<close> and \<open>right_gain = cos(- pi/4 + pi/4) volume = cos 0 = 1\<close>,
  while \<open>cos(- pi/4) 1\<close> is \<open>sqrt 2 / 2\<close>, less than 3/4: the two differ by more than
  a quarter.
\<close>

theorem stereo_right_gain_counterexample:
  "stereo_right_gain 90 = 1 \<and> cos (- pi / 4) * 1 = sqrt 2 / 2
   \<and> \<not> \<bar>stereo_right_gain 90 - cos (- pi / 4) * 1\<bar> \<le> 1 / 4"
proof -
  have "sqrt 2 / 2 < 3 / 4" "cos (- pi / 4) * 1 = sqrt 2 / 2"
    using cos_quarter_bound by auto
  then show ?thesis by (simp add: stereo_at_90 abs_if)
qed

text \<open>
  Claim C8 as amended. For a mono input (the same samples in both channels) and
  yaw 90, \<open>StereoRotator.rotate\<close> has volume 1, a left gain of about 0 and a right
  gain of about \<open>cos(0) 1 = 1\<close>, which is the maximum of the right gain over all
  yaws (about: within one millionth): every left output sample is about 0 and every
  right output sample is about the input sample, within one millionth of the
  input sample's magnitude.
\<close>

theorem stereo_quarter_turn:
  "stereo_volume 90 = 1
   \<and> \<bar>stereo_left_gain 90\<bar> \<le> 1 / 10 ^ 6
   \<and> \<bar>stereo_right_gain 90 - cos 0 * 1\<bar> \<le> 1 / 10 ^ 6
   \<and> cos 0 * 1 = (1 :: real)
   \<and> (\<forall>y. stereo_right_gain y \<le> cos 0 * 1)
   \<and> (\<exists>out. StereoRotator_rotate \<lparr>nsamples = length s, columns = [s, s]\<rparr> 90 = Inr out
          \<and> nsamples out = length s \<and> length (columns out) = 2
          \<and> length (columns out ! 0) = length s \<and> length (columns out ! 1) = length s
          \<and> (\<forall>i<length s.
                \<bar>columns out ! 0 ! i\<bar> \<le> \<bar>s ! i\<bar> / 10 ^ 6
              \<and> \<bar>columns out ! 1 ! i - s ! i\<bar> \<le> \<bar>s ! i\<bar> / 10 ^ 6))"
  using stereo_rotate_mono [of s 90] stereo_right_gain_le
  by (simp add: stereo_at_90)

text \<open>
  The amended C8 at the mono block [3, -4]: the left samples are within 3 and 4
  millionths of 0, the right samples within 3 and 4 millionths of 3 and -4.
\<close>

theorem stereo_quarter_turn_witness:
  "(0::nat) < length [3, - 4 :: real] \<and> (1::nat) < length [3, - 4 :: real]
   \<and> (\<exists>out. StereoRotator_rotate \<lparr>nsamples = 2, columns = [[3, - 4], [3, - 4]]\<rparr> 90 = Inr out
          \<and> \<bar>columns out ! 0 ! 0\<bar> \<le> 3 / 10 ^ 6 \<and> \<bar>columns out ! 0 ! 1\<bar> \<le> 4 / 10 ^ 6
          \<and> \<bar>columns out ! 1 ! 0 - 3\<bar> \<le> 3 / 10 ^ 6
          \<and> \<bar>columns out ! 1 ! 1 - (- 4)\<bar> \<le> 4 / 10 ^ 6)"
proof -
  from stereo_quarter_turn [of "[3, - 4]"]
  obtain out where
    r: "StereoRotator_rotate \<lparr>nsamples = length [3, - 4 :: real],
                               columns = [[3, - 4], [3, - 4]]\<rparr> 90 = Inr out"
    and b: "\<forall>i<length [3, - 4 :: real].
                \<bar>columns out ! 0 ! i\<bar> \<le> \<bar>[3, - 4] ! i\<bar> / 10 ^ 6
              \<and> \<bar>columns out ! 1 ! i - [3, - 4] ! i\<bar> \<le> \<bar>[3, - 4] ! i\<bar> / 10 ^ 6"
    by blast
  have "\<bar>columns out ! 0 ! 0\<bar> \<le> 3 / 10 ^ 6" "\<bar>columns out ! 0 ! 1\<bar> \<le> 4 / 10 ^ 6"
    "\<bar>columns out ! 1 ! 0 - 3\<bar> \<le> 3 / 10 ^ 6" "\<bar>columns out ! 1 ! 1 - (- 4)\<bar> \<le> 4 / 10 ^ 6"
    using b [rule_format, of 0] b [rule_format, of 1] by simp_all
  moreover have "StereoRotator_rotate \<lparr>nsamples = 2, columns = [[3, - 4], [3, - 4]]\<rparr> 90 = Inr out"
    using r by (simp add: numeral_2_eq_2)
  ultimately show ?thesis by auto
qed

section \<open>The claims about StereoTo71Upmixer\<close>

lemma py_int_nonneg: "0 \<le> x \<Longrightarrow> py_int x = \<lfloor>x\<rfloor> \<and> 0 \<le> py_int x"
  by (simp add: py_int_def)

lemma delayed_ok:
  "0 \<le> d \<Longrightarrow>
   delayed d n g x = Inr (map (\<lambda>v. v * g) (take n (replicate (nat d) 0 @ x)))"
  by (simp add: delayed_def np_zeros_def)

lemma delayed_length:
  "length x = n \<Longrightarrow> length (map (\<lambda>v. v * g) (take n (replicate k 0 @ x))) = n"
  by simp

lemma delayed_nth:
  assumes "i < n" "length x = n"
  shows "map (\<lambda>v. v * g) (take n (replicate k (0::real) @ x)) ! i
           = (if i < k then 0 else g * x ! (i - k))"
  using assms by (simp add: nth_append)

lemma create_lfe_filter_cases:
  "create_lfe_filter sosfilt rate =
     (if rate = 0 then Inl ZeroDivisionError
      else if 160 < rate then Inr sosfilt else Inl ValueError)"
proof -
  have "0 < 80 / (real_of_int rate / 2) \<and> 80 / (real_of_int rate / 2) < 1 \<longleftrightarrow> 160 < rate"
    if "rate \<noteq> 0"
  proof (cases "0 < rate")
    case True
    then have "0 < real_of_int rate" by simp
    then have "80 / (real_of_int rate / 2) < 1 \<longleftrightarrow> 160 < real_of_int rate"
      by (simp add: field_simps)
    moreover have "0 < 80 / (real_of_int rate / 2)" using True by simp
    ultimately show ?thesis by simp
  next
    case False
    then have "real_of_int rate < 0" using that by simp
    then have "80 / (real_of_int rate / 2) < 0" by (simp add: field_simps)
    then show ?thesis using False by simp
  qed
  then show ?thesis by (simp add: create_lfe_filter_def Let_def)
qed

lemma StereoTo71Upmixer_ok:
  "160 < rate \<Longrightarrow> StereoTo71Upmixer sosfilt rate fmt = Inr (upmixer_of sosfilt rate fmt)"
  by (simp add: StereoTo71Upmixer_def create_lfe_filter_cases upmixer_of_def)

lemma StereoTo71Upmixer_raises:
  "StereoTo71Upmixer sosfilt 0 fmt = Inl ZeroDivisionError"
  "rate \<le> 160 \<Longrightarrow> rate \<noteq> 0 \<Longrightarrow> StereoTo71Upmixer sosfilt rate fmt = Inl ValueError"
  by (simp_all add: StereoTo71Upmixer_def create_lfe_filter_cases)

lemma upmix_raises_on_empty_block:
  assumes "nsamples f = 0" "wf_frame f" "2 \<le> length (columns f)"
  shows "upmix (upmixer_of sosfilt rate fmt) f = Inl ValueError"
proof -
  have ne: "columns f \<noteq> []" "Suc 0 < length (columns f)" using assms(3) by auto
  have "0 < length (columns f)" "1 < length (columns f)" using assms(3) by linarith+
  then have len: "length (columns f ! 0) = 0" "length (columns f ! 1) = 0"
    using wf_frame_length [OF assms(2)] assms(1) by metis+
  then have e: "columns f ! 0 = []" "columns f ! Suc 0 = []" by simp_all
  have c: "column f 0 = Inr []" "column f 1 = Inr []"
    using ne e by (simp_all add: column_def)
  show ?thesis
    unfolding upmix_def Let_def c bind_err_simps assms(1)
    by (cases "fmt = ''5.1''")
       (simp_all add: upmixer_of_def zeros_def numeral_eq_Suc set_column_def lfe_sosfilt_def)
qed

lemma upmix_result:
  assumes wf: "wf_frame f" and two: "2 \<le> length (columns f)"
    and rate: "0 \<le> rate" and pos: "0 < nsamples f"
    and filt: "length (sosfilt (map2 (\<lambda>l r. (l + r) * 0.5) (columns f ! 0) (columns f ! 1)))
                = nsamples f"
  shows "upmix (upmixer_of sosfilt rate fmt) f =
    Inr \<lparr>nsamples = nsamples f,
         columns =
           [columns f ! 0, columns f ! 1,
            map2 (\<lambda>l r. (l + r) * 0.5) (columns f ! 0) (columns f ! 1),
            sosfilt (map2 (\<lambda>l r. (l + r) * 0.5) (columns f ! 0) (columns f ! 1)),
            map (\<lambda>v. v * 0.7) (take (nsamples f)
               (replicate (nat \<lfloor>0.005 * real_of_int rate\<rfloor>) 0
                 @ map2 (\<lambda>l r. l - r) (columns f ! 0) (columns f ! 1))),
            map (\<lambda>v. v * 0.7) (take (nsamples f)
               (replicate (nat \<lfloor>0.005 * real_of_int rate\<rfloor>) 0
                 @ map2 (\<lambda>r l. r - l) (columns f ! 1) (columns f ! 0)))]
           @ (if fmt = ''5.1'' then []
              else if fmt = ''7.1'' then
                [map (\<lambda>v. v * 0.5) (take (nsamples f)
                   (replicate (nat \<lfloor>0.010 * real_of_int rate\<rfloor>) 0
                     @ map uminus (map2 (\<lambda>l r. l - r) (columns f ! 0) (columns f ! 1)))),
                 map (\<lambda>v. v * 0.5) (take (nsamples f)
                   (replicate (nat \<lfloor>0.010 * real_of_int rate\<rfloor>) 0
                     @ map uminus (map2 (\<lambda>r l. r - l) (columns f ! 1) (columns f ! 0))))]
              else [replicate (nsamples f) 0, replicate (nsamples f) 0])\<rparr>"
proof -
  let ?L = "columns f ! 0" and ?R = "columns f ! 1"
  let ?U = "upmixer_of sosfilt rate fmt"
  have len: "length ?L = nsamples f" "length ?R = nsamples f"
    using wf two by (auto intro!: wf_frame_length)
  have ne: "columns f \<noteq> []" "Suc 0 < length (columns f)" using two by auto
  have c: "column f 0 = Inr ?L" "column f 1 = Inr ?R"
    using ne by (simp_all add: column_def)
  have d5: "surround_delay_samples ?U = \<lfloor>0.005 * real_of_int rate\<rfloor>"
    "0 \<le> surround_delay_samples ?U"
    using rate py_int_nonneg [of "0.005 * real_of_int rate"]
    by (simp_all add: upmixer_of_def)
  have d10: "rear_delay_samples ?U = \<lfloor>0.010 * real_of_int rate\<rfloor>"
    "0 \<le> rear_delay_samples ?U"
    using rate py_int_nonneg [of "0.010 * real_of_int rate"]
    by (simp_all add: upmixer_of_def)
  have fields: "upmix_num_channels ?U = (if fmt = ''5.1'' then 6 else 8)"
    "upmix_format ?U = fmt" "lfe_filter ?U = sosfilt"
    by (simp_all add: upmixer_of_def)
  have z6: "zeros n 6 = \<lparr>nsamples = n, columns = [replicate n 0, replicate n 0, replicate n 0,
       replicate n 0, replicate n 0, replicate n 0]\<rparr>" for n
    by (simp add: zeros_def numeral_eq_Suc)
  have z8: "zeros n 8 = \<lparr>nsamples = n, columns = [replicate n 0, replicate n 0, replicate n 0,
       replicate n 0, replicate n 0, replicate n 0, replicate n 0, replicate n 0]\<rparr>" for n
    by (simp add: zeros_def numeral_eq_Suc)
  define n where "n = nsamples f"
  define C where "C = map2 (\<lambda>l r. (l + r) * 0.5) ?L ?R"
  define LS where "LS = map (\<lambda>v. v * 0.7) (take n
               (replicate (nat \<lfloor>0.005 * real_of_int rate\<rfloor>) 0 @ map2 (\<lambda>l r. l - r) ?L ?R))"
  define RS where "RS = map (\<lambda>v. v * 0.7) (take n
               (replicate (nat \<lfloor>0.005 * real_of_int rate\<rfloor>) 0 @ map2 (\<lambda>r l. r - l) ?R ?L))"
  define LB where "LB = map (\<lambda>v. v * 0.5) (take n
               (replicate (nat \<lfloor>0.010 * real_of_int rate\<rfloor>) 0
                  @ map uminus (map2 (\<lambda>l r. l - r) ?L ?R)))"
  define RB where "RB = map (\<lambda>v. v * 0.5) (take n
               (replicate (nat \<lfloor>0.010 * real_of_int rate\<rfloor>) 0
                  @ map uminus (map2 (\<lambda>r l. r - l) ?R ?L)))"
  have lens: "length ?L = n" "length ?R = n" "length (columns f ! Suc 0) = n" "length C = n" "length (sosfilt C) = n"
    "length LS = n" "length RS = n" "length LB = n" "length RB = n"
    using len filt by (simp_all add: n_def C_def LS_def RS_def LB_def RB_def)
  have dl: "delayed (surround_delay_samples ?U) n 0.7 (map2 (\<lambda>l r. l - r) ?L ?R) = Inr LS"
    "delayed (surround_delay_samples ?U) n 0.7 (map2 (\<lambda>r l. r - l) ?R ?L) = Inr RS"
    "delayed (rear_delay_samples ?U) n 0.5 (map uminus (map2 (\<lambda>l r. l - r) ?L ?R)) = Inr LB"
    "delayed (rear_delay_samples ?U) n 0.5 (map uminus (map2 (\<lambda>r l. r - l) ?R ?L)) = Inr RB"
    unfolding LS_def RS_def LB_def RB_def
    using delayed_ok [OF d5(2)] delayed_ok [OF d10(2)] d5(1) d10(1) by simp_all
  have sf: "lfe_sosfilt ?U C = Inr (sosfilt C)"
    using lens(4) pos by (auto simp: lfe_sosfilt_def fields n_def)
  have goal: "upmix ?U f = Inr \<lparr>nsamples = n, columns = [?L, ?R, C, sosfilt C, LS, RS]
           @ (if fmt = ''5.1'' then [] else if fmt = ''7.1'' then [LB, RB]
              else [replicate n 0, replicate n 0])\<rparr>"
  proof (cases "fmt = ''5.1''")
    case True
    then show ?thesis
      unfolding upmix_def Let_def c bind_err_simps n_def [symmetric] C_def [symmetric] dl sf
        upmix_rear_def fields
      by (simp add: z6 set_column_exact lens)
  next
    case False
    then show ?thesis
      unfolding upmix_def Let_def c bind_err_simps n_def [symmetric] C_def [symmetric] dl sf
        upmix_rear_def fields
      by (simp add: z8 set_column_exact lens dl)
  qed
  show ?thesis
    unfolding goal unfolding n_def C_def LS_def RS_def LB_def RB_def n_def ..
qed

lemma map2_nth: "i < length xs \<Longrightarrow> length xs = length ys \<Longrightarrow> map2 g xs ys ! i = g (xs ! i) (ys ! i)"
  by simp

text \<open>
  Claim C4. For a sample rate above 160 (below, the constructor raises), a
  well-formed stereo frame (at least two channels) with at least one sample (on an
  empty block the filter raises) and a filter that returns as many samples as it is
  given: the constructor returns an upmixer, and \<open>upmix\<close> returns a frame whose
  channel 0 is L, whose channel 1 is R and whose channel 2 is, sample for sample,
  \<open>(L + R) / 2\<close>.
\<close>

theorem upmix_front_and_centre:
  assumes wf: "wf_frame f" and two: "2 \<le> length (columns f)"
    and high: "160 < rate" and pos: "0 < nsamples f"
    and filt: "\<forall>xs. length (sosfilt xs) = length xs"
  shows "\<exists>self out. StereoTo71Upmixer sosfilt rate fmt = Inr self
           \<and> upmix self f = Inr out
           \<and> columns out ! 0 = columns f ! 0 \<and> columns out ! 1 = columns f ! 1
           \<and> length (columns out ! 2) = nsamples f
           \<and> (\<forall>i<nsamples f. columns out ! 2 ! i = (columns f ! 0 ! i + columns f ! 1 ! i) / 2)"
proof -
  have rate: "0 \<le> rate" using high by simp
  have len: "length (columns f ! 0) = nsamples f" "length (columns f ! 1) = nsamples f"
    using wf two by (auto intro!: wf_frame_length)
  have f': "length (sosfilt (map2 (\<lambda>l r. (l + r) * 0.5) (columns f ! 0) (columns f ! 1)))
                = nsamples f"
    using filt len by simp
  note r = upmix_result [where sosfilt = sosfilt and fmt = fmt, OF wf two rate pos f']
  have "\<forall>i<nsamples f. map2 (\<lambda>l r. (l + r) * 0.5) (columns f ! 0) (columns f ! 1) ! i
          = (columns f ! 0 ! i + columns f ! 1 ! i) / 2"
    using len by simp
  then have "\<exists>out. upmix (upmixer_of sosfilt rate fmt) f = Inr out
           \<and> columns out ! 0 = columns f ! 0 \<and> columns out ! 1 = columns f ! 1
           \<and> length (columns out ! 2) = nsamples f
           \<and> (\<forall>i<nsamples f. columns out ! 2 ! i = (columns f ! 0 ! i + columns f ! 1 ! i) / 2)"
    unfolding r using len by simp
  then show ?thesis using StereoTo71Upmixer_ok [OF high] by blast
qed

text \<open>C4 at a two-sample frame: the centre of L = [1, 2] and R = [3, 5] is [2, 7/2].\<close>

theorem upmix_front_and_centre_witness:
  "wf_frame \<lparr>nsamples = 2, columns = [[1, 2], [3, 5]]\<rparr>
   \<and> 2 \<le> length (columns \<lparr>nsamples = 2, columns = [[1, 2], [3, 5]]\<rparr>)
   \<and> (160::int) < 48000
   \<and> 0 < nsamples \<lparr>nsamples = 2, columns = [[1, 2], [3, 5]]\<rparr>
   \<and> (\<forall>xs :: real list. length ((\<lambda>x. x) xs) = length xs)
   \<and> (\<exists>self out. StereoTo71Upmixer (\<lambda>x. x) 48000 ''7.1'' = Inr self
          \<and> upmix self \<lparr>nsamples = 2, columns = [[1, 2], [3, 5]]\<rparr> = Inr out
          \<and> columns out ! 0 = [1, 2] \<and> columns out ! 1 = [3, 5]
          \<and> columns out ! 2 ! 0 = 2 \<and> columns out ! 2 ! 1 = 7 / 2)"
proof -
  let ?f = "\<lparr>nsamples = 2, columns = [[1, 2], [3, 5 :: real]]\<rparr>"
  have wf: "wf_frame ?f" by (simp add: wf_frame_def)
  have two: "2 \<le> length (columns ?f)" by simp
  have rate: "(160::int) < 48000" by simp
  have pos: "0 < nsamples ?f" by simp
  have filt: "\<forall>xs :: real list. length ((\<lambda>x. x) xs) = length xs" by simp
  from upmix_front_and_centre [OF wf two rate pos filt, of "''7.1''"]
  obtain self out where u: "StereoTo71Upmixer (\<lambda>x. x) 48000 ''7.1'' = Inr self"
    and o: "upmix self ?f = Inr out"
    "columns out ! 0 = columns ?f ! 0" "columns out ! 1 = columns ?f ! 1"
    "\<forall>i<nsamples ?f. columns out ! 2 ! i = (columns ?f ! 0 ! i + columns ?f ! 1 ! i) / 2"
    by blast
  have "columns out ! 2 ! 0 = 2" "columns out ! 2 ! 1 = 7 / 2"
    using o(4) [rule_format, of 0] o(4) [rule_format, of 1] by simp_all
  with u o wf show ?thesis by auto
qed

lemma delayed_diff_nth:
  assumes "i < n" "length xs = n" "length ys = n"
  shows "map (\<lambda>v. v * g) (take n (replicate k (0::real) @ map2 (\<lambda>a b. a - b) xs ys)) ! i
           = (if i < k then 0 else g * (xs ! (i - k) - ys ! (i - k)))"
  using assms by (simp add: nth_append)

lemma delayed_neg_diff_nth:
  assumes "i < n" "length xs = n" "length ys = n"
  shows "map (\<lambda>v. v * g) (take n (replicate k (0::real)
             @ map uminus (map2 (\<lambda>a b. a - b) xs ys))) ! i
           = (if i < k then 0 else g * (- (xs ! (i - k) - ys ! (i - k))))"
  using assms by (simp add: nth_append)

text \<open>
  Claim C5. Under the same conditions (sample rate above 160, a block with at
  least one sample) and for the formats "5.1" and "7.1", with
  \<open>d5 = floor (0.005 sample_rate)\<close> and \<open>d10 = floor (0.010 sample_rate)\<close>: channel 4
  (LS) is \<open>0.7 (L - R)\<close> and channel 5 (RS) is \<open>0.7 (R - L)\<close>, each behind \<open>d5\<close>
  leading zeros and cut to the length of the block; for "7.1" the frame has 8
  channels, channel 6 (LB) is \<open>0.5 (- (L - R))\<close> and channel 7 (RB) is
  \<open>0.5 (- (R - L))\<close>, each behind \<open>d10\<close> leading zeros and cut to the block; for
  "5.1" the frame has 6 channels.
\<close>

theorem upmix_surrounds:
  assumes wf: "wf_frame f" and two: "2 \<le> length (columns f)"
    and high: "160 < rate" and pos: "0 < nsamples f"
    and filt: "\<forall>xs. length (sosfilt xs) = length xs"
    and fmt: "fmt = ''5.1'' \<or> fmt = ''7.1''"
  shows "\<exists>self out. StereoTo71Upmixer sosfilt rate fmt = Inr self
     \<and> upmix self f = Inr out
     \<and> nsamples out = nsamples f
     \<and> length (columns out ! 4) = nsamples f \<and> length (columns out ! 5) = nsamples f
     \<and> (\<forall>i<nsamples f.
           columns out ! 4 ! i =
             (if i < nat \<lfloor>0.005 * real_of_int rate\<rfloor> then 0
              else 0.7 * (columns f ! 0 ! (i - nat \<lfloor>0.005 * real_of_int rate\<rfloor>)
                         - columns f ! 1 ! (i - nat \<lfloor>0.005 * real_of_int rate\<rfloor>)))
         \<and> columns out ! 5 ! i =
             (if i < nat \<lfloor>0.005 * real_of_int rate\<rfloor> then 0
              else 0.7 * (columns f ! 1 ! (i - nat \<lfloor>0.005 * real_of_int rate\<rfloor>)
                         - columns f ! 0 ! (i - nat \<lfloor>0.005 * real_of_int rate\<rfloor>))))
     \<and> (fmt = ''7.1'' \<longrightarrow>
           length (columns out) = 8
         \<and> length (columns out ! 6) = nsamples f \<and> length (columns out ! 7) = nsamples f
         \<and> (\<forall>i<nsamples f.
               columns out ! 6 ! i =
                 (if i < nat \<lfloor>0.010 * real_of_int rate\<rfloor> then 0
                  else 0.5 * (- (columns f ! 0 ! (i - nat \<lfloor>0.010 * real_of_int rate\<rfloor>)
                                - columns f ! 1 ! (i - nat \<lfloor>0.010 * real_of_int rate\<rfloor>))))
             \<and> columns out ! 7 ! i =
                 (if i < nat \<lfloor>0.010 * real_of_int rate\<rfloor> then 0
                  else 0.5 * (- (columns f ! 1 ! (i - nat \<lfloor>0.010 * real_of_int rate\<rfloor>)
                                - columns f ! 0 ! (i - nat \<lfloor>0.010 * real_of_int rate\<rfloor>))))))
     \<and> (fmt = ''5.1'' \<longrightarrow> length (columns out) = 6)"
proof -
  let ?L = "columns f ! 0" and ?R = "columns f ! 1"
  let ?n = "nsamples f"
  define d5 where "d5 = nat \<lfloor>0.005 * real_of_int rate\<rfloor>"
  define d10 where "d10 = nat \<lfloor>0.010 * real_of_int rate\<rfloor>"
  define C where "C = map2 (\<lambda>l r. (l + r) * 0.5) ?L ?R"
  define LS where "LS = map (\<lambda>v. v * 0.7) (take ?n (replicate d5 0 @ map2 (\<lambda>l r. l - r) ?L ?R))"
  define RS where "RS = map (\<lambda>v. v * 0.7) (take ?n (replicate d5 0 @ map2 (\<lambda>r l. r - l) ?R ?L))"
  define LB where "LB = map (\<lambda>v. v * 0.5) (take ?n (replicate d10 0
                 @ map uminus (map2 (\<lambda>l r. l - r) ?L ?R)))"
  define RB where "RB = map (\<lambda>v. v * 0.5) (take ?n (replicate d10 0
                 @ map uminus (map2 (\<lambda>r l. r - l) ?R ?L)))"
  have len: "length ?L = ?n" "length ?R = ?n"
    using wf two by (auto intro!: wf_frame_length)
  have f': "length (sosfilt (map2 (\<lambda>l r. (l + r) * 0.5) ?L ?R)) = ?n"
    using filt len by simp
  have rate: "0 \<le> rate" using high by simp
  note ok = StereoTo71Upmixer_ok [OF high, of sosfilt fmt]
  note r = upmix_result [where sosfilt = sosfilt and fmt = fmt, OF wf two rate pos f',
      folded d5_def d10_def, folded C_def LS_def RS_def LB_def RB_def]
  have side: "LS ! i = (if i < d5 then 0 else 0.7 * (?L ! (i - d5) - ?R ! (i - d5)))"
      "RS ! i = (if i < d5 then 0 else 0.7 * (?R ! (i - d5) - ?L ! (i - d5)))"
    if "i < ?n" for i
    unfolding LS_def RS_def
    using delayed_diff_nth [OF that len(1) len(2)] delayed_diff_nth [OF that len(2) len(1)]
    by blast+
  have rear: "LB ! i = (if i < d10 then 0 else 0.5 * (- (?L ! (i - d10) - ?R ! (i - d10))))"
      "RB ! i = (if i < d10 then 0 else 0.5 * (- (?R ! (i - d10) - ?L ! (i - d10))))"
    if "i < ?n" for i
    unfolding LB_def RB_def
    using delayed_neg_diff_nth [OF that len(1) len(2)]
      delayed_neg_diff_nth [OF that len(2) len(1)]
    by blast+
  have lens: "length LS = ?n" "length RS = ?n" "length LB = ?n" "length RB = ?n"
    unfolding LS_def RS_def LB_def RB_def using len by simp_all
  from fmt show ?thesis unfolding d5_def [symmetric] d10_def [symmetric]
  proof
    assume "fmt = ''5.1''"
    then show "\<exists>self out. StereoTo71Upmixer sosfilt rate fmt = Inr self
     \<and> upmix self f = Inr out
     \<and> nsamples out = nsamples f
     \<and> length (columns out ! 4) = nsamples f \<and> length (columns out ! 5) = nsamples f
     \<and> (\<forall>i<nsamples f.
           columns out ! 4 ! i =
             (if i < d5 then 0 else 0.7 * (columns f ! 0 ! (i - d5) - columns f ! 1 ! (i - d5)))
         \<and> columns out ! 5 ! i =
             (if i < d5 then 0 else 0.7 * (columns f ! 1 ! (i - d5) - columns f ! 0 ! (i - d5))))
     \<and> (fmt = ''7.1'' \<longrightarrow>
           length (columns out) = 8
         \<and> length (columns out ! 6) = nsamples f \<and> length (columns out ! 7) = nsamples f
         \<and> (\<forall>i<nsamples f.
               columns out ! 6 ! i =
                 (if i < d10 then 0
                  else 0.5 * (- (columns f ! 0 ! (i - d10) - columns f ! 1 ! (i - d10))))
             \<and> columns out ! 7 ! i =
                 (if i < d10 then 0
                  else 0.5 * (- (columns f ! 1 ! (i - d10) - columns f ! 0 ! (i - d10))))))
     \<and> (fmt = ''5.1'' \<longrightarrow> length (columns out) = 6)"
      unfolding ok using r side lens by simp
  next
    assume "fmt = ''7.1''"
    then show "\<exists>self out. StereoTo71Upmixer sosfilt rate fmt = Inr self
     \<and> upmix self f = Inr out
     \<and> nsamples out = nsamples f
     \<and> length (columns out ! 4) = nsamples f \<and> length (columns out ! 5) = nsamples f
     \<and> (\<forall>i<nsamples f.
           columns out ! 4 ! i =
             (if i < d5 then 0 else 0.7 * (columns f ! 0 ! (i - d5) - columns f ! 1 ! (i - d5)))
         \<and> columns out ! 5 ! i =
             (if i < d5 then 0 else 0.7 * (columns f ! 1 ! (i - d5) - columns f ! 0 ! (i - d5))))
     \<and> (fmt = ''7.1'' \<longrightarrow>
           length (columns out) = 8
         \<and> length (columns out ! 6) = nsamples f \<and> length (columns out ! 7) = nsamples f
         \<and> (\<forall>i<nsamples f.
               columns out ! 6 ! i =
                 (if i < d10 then 0
                  else 0.5 * (- (columns f ! 0 ! (i - d10) - columns f ! 1 ! (i - d10))))
             \<and> columns out ! 7 ! i =
                 (if i < d10 then 0
                  else 0.5 * (- (columns f ! 1 ! (i - d10) - columns f ! 0 ! (i - d10))))))
     \<and> (fmt = ''5.1'' \<longrightarrow> length (columns out) = 6)"
      unfolding ok using r side rear lens by simp
  qed
qed

text \<open>
  C5 at a five-sample frame, sample rate 400 (side delay 2, rear delay 4) and
  format "7.1": with L = [1, 2, 3, 4, 5] and R silent, LS is silent for two samples
  and then 0.7 L, and LB is silent for four samples and then -0.5 L.
\<close>

theorem upmix_surrounds_witness:
  "wf_frame \<lparr>nsamples = 5, columns = [[1, 2, 3, 4, 5], [0, 0, 0, 0, 0]]\<rparr>
   \<and> 2 \<le> length (columns \<lparr>nsamples = 5, columns = [[1, 2, 3, 4, 5], [0, 0, 0, 0, 0]]\<rparr>)
   \<and> (160::int) < 400
   \<and> 0 < nsamples \<lparr>nsamples = 5, columns = [[1, 2, 3, 4, 5], [0, 0, 0, 0, 0]]\<rparr>
   \<and> (\<forall>xs :: real list. length ((\<lambda>x. x) xs) = length xs)
   \<and> (\<exists>self out. StereoTo71Upmixer (\<lambda>x. x) 400 ''7.1'' = Inr self
          \<and> upmix self \<lparr>nsamples = 5, columns = [[1, 2, 3, 4, 5], [0, 0, 0, 0, 0]]\<rparr> = Inr out
          \<and> length (columns out) = 8
          \<and> columns out ! 4 ! 1 = 0 \<and> columns out ! 4 ! 2 = 7 / 10
          \<and> columns out ! 5 ! 4 = - (21 / 10)
          \<and> columns out ! 6 ! 3 = 0 \<and> columns out ! 6 ! 4 = - (1 / 2)
          \<and> columns out ! 7 ! 4 = 1 / 2)"
proof -
  let ?f = "\<lparr>nsamples = 5, columns = [[1, 2, 3, 4, 5], [0, 0, 0, 0, 0 :: real]]\<rparr>"
  have wf: "wf_frame ?f" by (simp add: wf_frame_def)
  have two: "2 \<le> length (columns ?f)" by simp
  have rate: "(160::int) < 400" by simp
  have pos: "0 < nsamples ?f" by simp
  have filt: "\<forall>xs :: real list. length ((\<lambda>x. x) xs) = length xs" by simp
  have fmt: "''7.1'' = ''5.1'' \<or> ''7.1'' = ''7.1''" by simp
  have d: "nat \<lfloor>0.005 * real_of_int 400\<rfloor> = 2" "nat \<lfloor>0.010 * real_of_int 400\<rfloor> = 4"
    by simp_all
  from upmix_surrounds [OF wf two rate pos filt fmt, unfolded d]
  obtain self out where u: "StereoTo71Upmixer (\<lambda>x. x) 400 ''7.1'' = Inr self"
    and o: "upmix self ?f = Inr out"
    and side: "\<forall>i<nsamples ?f.
           columns out ! 4 ! i =
             (if i < 2 then 0 else 0.7 * (columns ?f ! 0 ! (i - 2) - columns ?f ! 1 ! (i - 2)))
         \<and> columns out ! 5 ! i =
             (if i < 2 then 0 else 0.7 * (columns ?f ! 1 ! (i - 2) - columns ?f ! 0 ! (i - 2)))"
    and rear: "length (columns out) = 8"
         "\<forall>i<nsamples ?f.
               columns out ! 6 ! i =
                 (if i < 4 then 0
                  else 0.5 * (- (columns ?f ! 0 ! (i - 4) - columns ?f ! 1 ! (i - 4))))
             \<and> columns out ! 7 ! i =
                 (if i < 4 then 0
                  else 0.5 * (- (columns ?f ! 1 ! (i - 4) - columns ?f ! 0 ! (i - 4))))"
    by blast
  have "columns out ! 4 ! 1 = 0" "columns out ! 4 ! 2 = 7 / 10"
    "columns out ! 5 ! 4 = - (21 / 10)"
    using side [rule_format, of 1] side [rule_format, of 2] side [rule_format, of 4]
    by simp_all
  moreover have "columns out ! 6 ! 3 = 0" "columns out ! 6 ! 4 = - (1 / 2)"
    "columns out ! 7 ! 4 = 1 / 2"
    using rear(2) [rule_format, of 3] rear(2) [rule_format, of 4]
    by simp_all
  ultimately show ?thesis using u o rear(1) wf by simp
qed

section \<open>The claim about the stream callback\<close>

text \<open>
  Claim C9 fails. A one-channel input block (the stream is configured for two
  input channels) is neither padded with silence nor truncated: its channel is
  copied into both stereo channels, and nothing is printed. Likewise a callback
  result of one sample for a block of two samples is repeated over the block by
  broadcasting, and nothing is printed.
\<close>

theorem sd_callback_counterexample:
  "sd_callback Inr 2 \<lparr>nsamples = 2, columns = [[1, 2]]\<rparr> (zeros 2 2) 2 False
     = ([], \<lparr>nsamples = 2, columns = [[1, 2], [1, 2]]\<rparr>)
   \<and> sd_callback (\<lambda>stereo. Inr \<lparr>nsamples = 1, columns = [[7], [8]]\<rparr>) 2
        \<lparr>nsamples = 2, columns = [[1, 2], [3, 4]]\<rparr> (zeros 2 2) 2 False
     = ([], \<lparr>nsamples = 2, columns = [[7, 7], [8, 8]]\<rparr>)"
  by (simp add: sd_callback_def stereo_input_def zeros_def column_def assign_block_def stored_column_def
      numeral_2_eq_2)

lemma stored_column_length: "length (stored_column n v) = n"
  by (simp add: stored_column_def)

lemma stored_column_id: "length v = n \<Longrightarrow> stored_column n v = v"
  by (simp add: stored_column_def)

lemma wf_zeros: "wf_frame (zeros n c)"
  by (simp add: wf_frame_def zeros_def list_all_iff)

lemma assign_block_shape:
  assumes "assign_block n c src = Inr b"
  shows "nsamples b = n \<and> length (columns b) = c \<and> wf_frame b"
  using assms
  by (auto simp: assign_block_def wf_frame_def list_all_iff stored_column_length
      split: if_splits)

lemma assign_block_same:
  assumes "wf_frame src" "nsamples src = n" "length (columns src) = c"
  shows "assign_block n c src = Inr src"
proof -
  have "map (stored_column n) (columns src) = columns src"
    using assms(1,2) by (intro map_idI) (auto simp: wf_frame_def list_all_iff stored_column_id)
  then show ?thesis using assms by (simp add: assign_block_def)
qed

lemma assign_block_rows:
  assumes "nsamples src \<noteq> n" "nsamples src \<noteq> 1"
  shows "assign_block n c src = Inl ValueError"
  using assms by (simp add: assign_block_def)

lemma wf_frame_take_cols:
  "wf_frame g \<Longrightarrow> wf_frame \<lparr>nsamples = nsamples g, columns = take m (columns g)\<rparr>"
  by (auto simp: wf_frame_def list_all_iff dest: in_set_takeD)

lemma sd_callback_shape:
  "nsamples (snd (sd_callback cb oc indata outdata frames status)) = nsamples outdata
   \<and> length (columns (snd (sd_callback cb oc indata outdata frames status)))
        = length (columns outdata)
   \<and> wf_frame (snd (sd_callback cb oc indata outdata frames status))"
proof -
  have z: "nsamples (zeros n c) = n \<and> length (columns (zeros n c)) = c \<and> wf_frame (zeros n c)"
    for n c
    using wf_zeros by (simp add: zeros_def)
  show ?thesis
    unfolding sd_callback_def Let_def
    by (auto simp: z bind_err_eq_Inr split: sum.splits dest: assign_block_shape)
qed

lemma sd_callback_error:
  assumes "bind_err (stereo_input indata) cb = Inl e"
  shows "sd_callback cb oc indata outdata frames status =
           ((if status then [StatusPrinted] else []) @ [CallbackError e],
            zeros (nsamples outdata) (length (columns outdata)))"
  using assms by (simp add: sd_callback_def)

lemma sd_callback_result:
  assumes r: "bind_err (stereo_input indata) cb = Inr result"
    and wf: "wf_frame result" and rows: "nsamples result = frames"
    and buf: "nsamples outdata = frames" "length (columns outdata) = oc"
  shows "sd_callback cb oc indata outdata frames status =
     (if length (columns result) < oc then
        ((if status then [StatusPrinted] else [])
           @ [ChannelWarning oc (length (columns result))],
         \<lparr>nsamples = frames,
          columns = columns result
            @ replicate (oc - length (columns result)) (replicate frames 0)\<rparr>)
      else if oc < length (columns result) then
        ((if status then [StatusPrinted] else [])
           @ [ChannelWarning oc (length (columns result))],
         \<lparr>nsamples = frames, columns = take oc (columns result)\<rparr>)
      else ((if status then [StatusPrinted] else []), result))"
proof -
  let ?k = "length (columns result)"
  let ?pad = "\<lparr>nsamples = frames,
          columns = columns result @ replicate (oc - ?k) (replicate frames 0)\<rparr>"
  have a1: "assign_block frames ?k result = Inr result"
    using wf rows by (intro assign_block_same) simp_all
  have wfp: "wf_frame ?pad"
    using wf rows by (auto simp: wf_frame_def list_all_iff)
  consider (less) "?k < oc" | (more) "oc < ?k" | (same) "?k = oc" by linarith
  then show ?thesis
  proof cases
    case less
    have "assign_block frames oc \<lparr>nsamples = frames, columns = take oc (columns ?pad)\<rparr> = Inr ?pad"
      using less wfp by (intro assign_block_same [THEN trans]) (simp_all add: wf_frame_def)
    then show ?thesis using less r a1 buf by (simp add: sd_callback_def Let_def)
  next
    case more
    let ?cut = "\<lparr>nsamples = frames, columns = take oc (columns result)\<rparr>"
    have "wf_frame ?cut" using wf_frame_take_cols [OF wf] rows by simp
    then have "assign_block frames oc ?cut = Inr ?cut"
      using more by (intro assign_block_same) simp_all
    then show ?thesis using more r buf rows by (simp add: sd_callback_def Let_def)
  next
    case same
    have "result = \<lparr>nsamples = frames, columns = take oc (columns result)\<rparr>"
      using same rows by (intro frame_eqI) simp_all
    moreover have "assign_block frames oc result = Inr result"
      using same wf rows by (intro assign_block_same) simp_all
    ultimately have "assign_block frames oc
        \<lparr>nsamples = frames, columns = take oc (columns result)\<rparr> = Inr result"
      by simp
    then show ?thesis using same r buf rows by (simp add: sd_callback_def Let_def)
  qed
qed

lemma sd_callback_rows:
  assumes r: "bind_err (stereo_input indata) cb = Inr result"
    and rows: "nsamples result \<noteq> frames" "nsamples result \<noteq> 1"
    and buf: "nsamples outdata = frames" "length (columns outdata) = oc"
  shows "CallbackError ValueError \<in> set (fst (sd_callback cb oc indata outdata frames status))
       \<and> snd (sd_callback cb oc indata outdata frames status) = zeros frames oc"
proof -
  let ?k = "length (columns result)"
  have a1: "assign_block frames c result = Inl ValueError" for c
    using rows by (rule assign_block_rows)
  have a2: "assign_block frames oc \<lparr>nsamples = nsamples result, columns = cs\<rparr>
              = Inl ValueError" for cs
    using rows by (intro assign_block_rows) simp_all
  show ?thesis using r buf a1 a2
    by (cases "?k < oc") (simp_all add: sd_callback_def Let_def)
qed

lemma stereo_input_mono:
  assumes "length (columns indata) = 1"
  shows "stereo_input indata =
           Inr \<lparr>nsamples = nsamples indata,
                columns = [columns indata ! 0, columns indata ! 0]\<rparr>"
  using assms by (simp add: stereo_input_def column_def)

text \<open>
  Claim C9 as amended. \<open>sd_callback\<close> never lets an exception escape: for every
  input block, callback and status it fills the whole output block, of the shape
  of the buffer (frames by output channels). When processing raises (the callback
  raises, or the input block has no channel), the error is printed and the block
  is silence. When the callback's result has the block's sample count: with fewer
  channels than configured a warning is printed and the missing channels are
  silence; with more channels a warning is printed and the extra channels are
  dropped; with the configured channels the result is delivered as it is. When the
  result's sample count is neither the block's nor 1, an error is printed and the
  block is silence. A one-channel input block is handed to the callback with its
  channel twice, and nothing is printed for it.
\<close>

theorem sd_callback_delivers:
  assumes buf: "nsamples outdata = frames" "length (columns outdata) = oc"
  shows "nsamples (snd (sd_callback cb oc indata outdata frames status)) = frames
     \<and> length (columns (snd (sd_callback cb oc indata outdata frames status))) = oc
     \<and> wf_frame (snd (sd_callback cb oc indata outdata frames status))
     \<and> (\<forall>e. bind_err (stereo_input indata) cb = Inl e \<longrightarrow>
           sd_callback cb oc indata outdata frames status =
             ((if status then [StatusPrinted] else []) @ [CallbackError e], zeros frames oc))
     \<and> (\<forall>result. bind_err (stereo_input indata) cb = Inr result \<and> wf_frame result
            \<and> nsamples result = frames \<longrightarrow>
           sd_callback cb oc indata outdata frames status =
             (if length (columns result) < oc then
                ((if status then [StatusPrinted] else [])
                   @ [ChannelWarning oc (length (columns result))],
                 \<lparr>nsamples = frames,
                  columns = columns result
                    @ replicate (oc - length (columns result)) (replicate frames 0)\<rparr>)
              else if oc < length (columns result) then
                ((if status then [StatusPrinted] else [])
                   @ [ChannelWarning oc (length (columns result))],
                 \<lparr>nsamples = frames, columns = take oc (columns result)\<rparr>)
              else ((if status then [StatusPrinted] else []), result)))
     \<and> (\<forall>result. bind_err (stereo_input indata) cb = Inr result
            \<and> nsamples result \<noteq> frames \<and> nsamples result \<noteq> 1 \<longrightarrow>
           CallbackError ValueError
             \<in> set (fst (sd_callback cb oc indata outdata frames status))
           \<and> snd (sd_callback cb oc indata outdata frames status) = zeros frames oc)
     \<and> (length (columns indata) = 1 \<longrightarrow>
           stereo_input indata =
             Inr \<lparr>nsamples = nsamples indata,
                  columns = [columns indata ! 0, columns indata ! 0]\<rparr>)"
proof (intro conjI allI impI)
  show "nsamples (snd (sd_callback cb oc indata outdata frames status)) = frames"
    "length (columns (snd (sd_callback cb oc indata outdata frames status))) = oc"
    "wf_frame (snd (sd_callback cb oc indata outdata frames status))"
    using sd_callback_shape [of cb oc indata outdata frames status] buf by simp_all
next
  fix e assume "bind_err (stereo_input indata) cb = Inl e"
  then show "sd_callback cb oc indata outdata frames status =
             ((if status then [StatusPrinted] else []) @ [CallbackError e], zeros frames oc)"
    using buf by (simp add: sd_callback_error)
next
  fix result
  assume "bind_err (stereo_input indata) cb = Inr result \<and> wf_frame result
            \<and> nsamples result = frames"
  then show "sd_callback cb oc indata outdata frames status =
             (if length (columns result) < oc then
                ((if status then [StatusPrinted] else [])
                   @ [ChannelWarning oc (length (columns result))],
                 \<lparr>nsamples = frames,
                  columns = columns result
                    @ replicate (oc - length (columns result)) (replicate frames 0)\<rparr>)
              else if oc < length (columns result) then
                ((if status then [StatusPrinted] else [])
                   @ [ChannelWarning oc (length (columns result))],
                 \<lparr>nsamples = frames, columns = take oc (columns result)\<rparr>)
              else ((if status then [StatusPrinted] else []), result))"
    using sd_callback_result [OF _ _ _ buf] by blast
next
  fix result
  assume a: "bind_err (stereo_input indata) cb = Inr result
            \<and> nsamples result \<noteq> frames \<and> nsamples result \<noteq> 1"
  from a sd_callback_rows [OF _ _ _ buf, of indata cb result status]
  show "CallbackError ValueError
             \<in> set (fst (sd_callback cb oc indata outdata frames status))"
    and "snd (sd_callback cb oc indata outdata frames status) = zeros frames oc"
    by blast+
next
  assume "length (columns indata) = 1"
  then show "stereo_input indata =
             Inr \<lparr>nsamples = nsamples indata,
                  columns = [columns indata ! 0, columns indata ! 0]\<rparr>"
    by (rule stereo_input_mono)
qed

text \<open>
  The amended C9 at a block of two samples for a 5.1 output: a callback that
  returns the stereo block gets a warning and four channels of silence; a callback
  that returns three samples gets an error and a silent block.
\<close>

theorem sd_callback_delivers_witness:
  "nsamples (zeros 2 6) = 2 \<and> length (columns (zeros 2 6)) = 6
   \<and> sd_callback Inr 6 \<lparr>nsamples = 2, columns = [[1, 2], [3, 4]]\<rparr> (zeros 2 6) 2 False
       = ([ChannelWarning 6 2],
          \<lparr>nsamples = 2, columns = [[1, 2], [3, 4], [0, 0], [0, 0], [0, 0], [0, 0]]\<rparr>)
   \<and> CallbackError ValueError
         \<in> set (fst (sd_callback (\<lambda>s. Inr \<lparr>nsamples = 3, columns = [[1, 2, 3]]\<rparr>) 6
                        \<lparr>nsamples = 2, columns = [[1, 2], [3, 4]]\<rparr> (zeros 2 6) 2 False))
   \<and> snd (sd_callback (\<lambda>s. Inr \<lparr>nsamples = 3, columns = [[1, 2, 3]]\<rparr>) 6
             \<lparr>nsamples = 2, columns = [[1, 2], [3, 4]]\<rparr> (zeros 2 6) 2 False) = zeros 2 6"
proof -
  let ?in = "\<lparr>nsamples = 2, columns = [[1, 2], [3, 4 :: real]]\<rparr>"
  let ?bad = "\<lambda>s :: frame. (Inr \<lparr>nsamples = 3, columns = [[1, 2, 3 :: real]]\<rparr> :: error + frame)"
  have buf: "nsamples (zeros 2 6) = 2" "length (columns (zeros 2 6)) = 6"
    by (simp_all add: zeros_def)
  have s: "stereo_input ?in = Inr ?in" by (simp add: stereo_input_def)
  have ok: "bind_err (stereo_input ?in) Inr = Inr ?in \<and> wf_frame ?in \<and> nsamples ?in = 2"
    by (simp add: s wf_frame_def)
  have bad: "bind_err (stereo_input ?in) ?bad = Inr \<lparr>nsamples = 3, columns = [[1, 2, 3]]\<rparr>
      \<and> nsamples \<lparr>nsamples = 3, columns = [[1, 2, 3 :: real]]\<rparr> \<noteq> 2
      \<and> nsamples \<lparr>nsamples = 3, columns = [[1, 2, 3 :: real]]\<rparr> \<noteq> 1"
    by (simp add: s)
  from sd_callback_delivers [OF buf, of Inr ?in False] ok
  have "sd_callback Inr 6 ?in (zeros 2 6) 2 False =
      ([ChannelWarning 6 2],
       \<lparr>nsamples = 2, columns = [[1, 2], [3, 4], [0, 0], [0, 0], [0, 0], [0, 0]]\<rparr>)"
    by (simp add: numeral_eq_Suc)
  moreover from sd_callback_delivers [OF buf, of ?bad ?in False] bad
  have "CallbackError ValueError \<in> set (fst (sd_callback ?bad 6 ?in (zeros 2 6) 2 False))
      \<and> snd (sd_callback ?bad 6 ?in (zeros 2 6) 2 False) = zeros 2 6"
    by blast
  ultimately show ?thesis using buf by simp
qed

end
